theory Spec2Isabelle
  imports Complex_Main "HOL-Library.Word"
begin

section \<open>JavaScript numbers\<close>

text \<open>
  The two modules under verification, \<^verbatim>\<open>src/core/math/mat4.ts\<close> and
  \<^verbatim>\<open>src/core/mesh/sphere.ts\<close>, compute with JavaScript numbers and store them in
  typed arrays. A number is either finite or one of \<open>Infinity\<close>, \<open>-Infinity\<close>, \<open>NaN\<close>.
  The non-finite values are part of the model, with the IEEE 754 rules for them
  (\<open>0 * Infinity = NaN\<close>, \<open>Infinity - Infinity = NaN\<close>, \<open>NaN\<close> absorbs), because they
  change results qualitatively. Finite arithmetic is exact: the rounding to 53 bits of
  an operation and to 24 bits of a store into a \<open>Float32Array\<close>, the overflow of a finite
  result and the sign of zero are not modelled, and \<open>Math.sin\<close>, \<open>Math.cos\<close> and
  \<open>Math.PI\<close> are the mathematical functions and constant. A statement about a finite
  value is therefore a statement about the value the code approximates.
\<close>

datatype jsnum = Fin real | PInf | NInf | NaN

fun nmul :: "jsnum \<Rightarrow> jsnum \<Rightarrow> jsnum" where
  "nmul NaN _ = NaN"
| "nmul _ NaN = NaN"
| "nmul (Fin a) (Fin b) = Fin (a * b)"
| "nmul (Fin a) PInf = (if a = 0 then NaN else if 0 < a then PInf else NInf)"
| "nmul (Fin a) NInf = (if a = 0 then NaN else if 0 < a then NInf else PInf)"
| "nmul PInf (Fin b) = (if b = 0 then NaN else if 0 < b then PInf else NInf)"
| "nmul NInf (Fin b) = (if b = 0 then NaN else if 0 < b then NInf else PInf)"
| "nmul PInf PInf = PInf"
| "nmul PInf NInf = NInf"
| "nmul NInf PInf = NInf"
| "nmul NInf NInf = PInf"

fun nadd :: "jsnum \<Rightarrow> jsnum \<Rightarrow> jsnum" where
  "nadd NaN _ = NaN"
| "nadd _ NaN = NaN"
| "nadd (Fin a) (Fin b) = Fin (a + b)"
| "nadd (Fin a) PInf = PInf"
| "nadd (Fin a) NInf = NInf"
| "nadd PInf (Fin b) = PInf"
| "nadd NInf (Fin b) = NInf"
| "nadd PInf PInf = PInf"
| "nadd PInf NInf = NaN"
| "nadd NInf PInf = NaN"
| "nadd NInf NInf = NInf"

text \<open>Division; a zero divisor is taken as \<open>+0\<close> (the divisors of the code are counts).\<close>

fun ndiv :: "jsnum \<Rightarrow> jsnum \<Rightarrow> jsnum" where
  "ndiv NaN _ = NaN"
| "ndiv _ NaN = NaN"
| "ndiv (Fin a) (Fin b) =
     (if b = 0 then (if a = 0 then NaN else if 0 < a then PInf else NInf) else Fin (a / b))"
| "ndiv (Fin a) PInf = Fin 0"
| "ndiv (Fin a) NInf = Fin 0"
| "ndiv PInf (Fin b) = (if 0 \<le> b then PInf else NInf)"
| "ndiv NInf (Fin b) = (if 0 \<le> b then NInf else PInf)"
| "ndiv PInf PInf = NaN"
| "ndiv PInf NInf = NaN"
| "ndiv NInf PInf = NaN"
| "ndiv NInf NInf = NaN"

fun nsin :: "jsnum \<Rightarrow> jsnum" where
  "nsin (Fin x) = Fin (sin x)"
| "nsin _ = NaN"

fun ncos :: "jsnum \<Rightarrow> jsnum" where
  "ncos (Fin x) = Fin (cos x)"
| "ncos _ = NaN"

definition js_PI :: jsnum where
  "js_PI = Fin pi"

text \<open>A loop counter or a count (a non-negative integer) read as a number.\<close>

definition of_count :: "nat \<Rightarrow> jsnum" where
  "of_count n = Fin (real n)"

fun is_finite :: "jsnum \<Rightarrow> bool" where
  "is_finite (Fin x) = True"
| "is_finite _ = False"

section \<open>Typed arrays\<close>

text \<open>
  \<open>new Float32Array(n)\<close> and \<open>new Uint16Array(n)\<close>, when they succeed, are zero-filled
  arrays of fixed length. A read out of range yields \<open>undefined\<close>, which arithmetic turns
  into \<open>NaN\<close>; a write out of range is ignored; a write to a \<open>Uint16Array\<close> keeps the
  value modulo \<open>2^16\<close>.
\<close>

type_synonym Float32Array = "jsnum list"
type_synonym Uint16Array = "16 word list"

definition new_Float32Array :: "nat \<Rightarrow> Float32Array" where
  "new_Float32Array n = replicate n (Fin 0)"

definition new_Uint16Array :: "nat \<Rightarrow> Uint16Array" where
  "new_Uint16Array n = replicate n 0"

definition f32_get :: "Float32Array \<Rightarrow> nat \<Rightarrow> jsnum" where
  "f32_get a i = (if i < length a then a ! i else NaN)"

definition f32_set :: "Float32Array \<Rightarrow> nat \<Rightarrow> jsnum \<Rightarrow> Float32Array" where
  "f32_set a i v = (if i < length a then a[i := v] else a)"

definition u16_set :: "Uint16Array \<Rightarrow> nat \<Rightarrow> nat \<Rightarrow> Uint16Array" where
  "u16_set a i v = (if i < length a then a[i := of_nat v] else a)"

text \<open>
  The constructors can fail. \<open>new Float32Array(n)\<close> and \<open>new Uint16Array(n)\<close> throw a
  \<open>RangeError\<close> when \<open>n\<close> exceeds \<open>2^53 - 1\<close>, in every engine, and when the engine cannot
  allocate the \<open>4 * n\<close> or \<open>2 * n\<close> bytes of the buffer. What an engine can allocate is
  its own affair: an engine is taken as the predicate that tells, of a number of bytes,
  whether a buffer of that size can be allocated.
\<close>

datatype js_error = RangeError

type_synonym engine = "nat \<Rightarrow> bool"

definition max_typed_array_length :: nat where
  "max_typed_array_length = 2 ^ 53 - 1"

definition can_allocate :: "engine \<Rightarrow> nat \<Rightarrow> nat \<Rightarrow> bool" where
  "can_allocate eng bytes_per_element n \<longleftrightarrow>
     n \<le> max_typed_array_length \<and> eng (bytes_per_element * n)"

definition alloc_Float32Array :: "engine \<Rightarrow> nat \<Rightarrow> js_error + Float32Array" where
  "alloc_Float32Array eng n =
     (if can_allocate eng 4 n then Inr (new_Float32Array n) else Inl RangeError)"

definition alloc_Uint16Array :: "engine \<Rightarrow> nat \<Rightarrow> js_error + Uint16Array" where
  "alloc_Uint16Array eng n =
     (if can_allocate eng 2 n then Inr (new_Uint16Array n) else Inl RangeError)"

section \<open>Counting loops\<close>

text \<open>
  \<open>for (let i = i0; i < n; i++) body\<close> and \<open>for (let i = i0; i <= n; i++) body\<close>, for
  bodies that neither assign the counter nor leave the loop early.
\<close>

function for_lt :: "nat \<Rightarrow> nat \<Rightarrow> (nat \<Rightarrow> 's \<Rightarrow> 's) \<Rightarrow> 's \<Rightarrow> 's" where
  "for_lt i n body s = (if i < n then for_lt (Suc i) n body (body i s) else s)"
  by pat_completeness auto
termination
  by (relation "measure (\<lambda>(i, n, body, s). n - i)") auto

function for_le :: "nat \<Rightarrow> nat \<Rightarrow> (nat \<Rightarrow> 's \<Rightarrow> 's) \<Rightarrow> 's \<Rightarrow> 's" where
  "for_le i n body s = (if i \<le> n then for_le (Suc i) n body (body i s) else s)"
  by pat_completeness auto
termination
  by (relation "measure (\<lambda>(i, n, body, s). Suc n - i)") auto

declare for_lt.simps [simp del] for_le.simps [simp del]

section \<open>The sphere mesh generator (\<^verbatim>\<open>src/core/mesh/sphere.ts\<close>)\<close>

record SphereMesh =
  positions :: Float32Array
  uvs :: Float32Array
  indices :: Uint16Array
  vertexCount :: nat
  indexCount :: nat

text \<open>The console: the warnings logged so far, each with the vertex count it reports.\<close>

datatype console_entry = Warn_vertexCount nat

type_synonym console = "console_entry list"

definition console_warn :: "console_entry \<Rightarrow> console \<Rightarrow> console" where
  "console_warn e con = con @ [e]"

text \<open>The variables the vertex loops assign: both arrays and the cursor \<open>vi\<close>.\<close>

record vertex_state =
  vs_positions :: Float32Array
  vs_uvs :: Float32Array
  vs_vi :: nat

text \<open>The variables the index loops assign: the array and the cursor \<open>ii\<close>.\<close>

record index_state =
  is_indices :: Uint16Array
  is_ii :: nat

text \<open>The body of the inner vertex loop (lines 44 to 60).\<close>

definition vertex_body ::
  "jsnum \<Rightarrow> nat \<Rightarrow> nat \<Rightarrow> nat \<Rightarrow> jsnum \<Rightarrow> jsnum \<Rightarrow> nat \<Rightarrow> vertex_state \<Rightarrow> vertex_state" where
  "vertex_body radius stacks slices stack sinPhi cosPhi slice' st =
     (let theta = nmul (nmul (ndiv (of_count slice') (of_count slices)) (Fin 2)) js_PI;
          sinTheta = nsin theta;
          cosTheta = ncos theta;
          x = nmul (nmul radius sinPhi) cosTheta;
          y = nmul radius cosPhi;
          z = nmul (nmul radius sinPhi) sinTheta;
          vi = vs_vi st;
          p1 = f32_set (vs_positions st) (vi * 3) x;
          p2 = f32_set p1 (vi * 3 + 1) y;
          p3 = f32_set p2 (vi * 3 + 2) z;
          u1 = f32_set (vs_uvs st) (vi * 2) (ndiv (of_count slice') (of_count slices));
          u2 = f32_set u1 (vi * 2 + 1) (ndiv (of_count stack) (of_count stacks))
      in \<lparr>vs_positions = p3, vs_uvs = u2, vs_vi = vi + 1\<rparr>)"

text \<open>The body of the outer vertex loop (lines 39 to 61).\<close>

definition stack_body :: "jsnum \<Rightarrow> nat \<Rightarrow> nat \<Rightarrow> nat \<Rightarrow> vertex_state \<Rightarrow> vertex_state" where
  "stack_body radius stacks slices stack st =
     (let phi = nmul (ndiv (of_count stack) (of_count stacks)) js_PI;
          sinPhi = nsin phi;
          cosPhi = ncos phi
      in for_le 0 slices (vertex_body radius stacks slices stack sinPhi cosPhi) st)"

text \<open>The body of the inner index loop (lines 71 to 82): six writes through \<open>ii++\<close>.\<close>

definition cell_body :: "nat \<Rightarrow> nat \<Rightarrow> nat \<Rightarrow> index_state \<Rightarrow> index_state" where
  "cell_body slices stack slice' st =
     (let first = stack * (slices + 1) + slice';
          second = first + slices + 1;
          ii = is_ii st;
          i1 = u16_set (is_indices st) ii first;
          i2 = u16_set i1 (ii + 1) second;
          i3 = u16_set i2 (ii + 2) (first + 1);
          i4 = u16_set i3 (ii + 3) (first + 1);
          i5 = u16_set i4 (ii + 4) second;
          i6 = u16_set i5 (ii + 5) (second + 1)
      in \<lparr>is_indices = i6, is_ii = ii + 6\<rparr>)"

definition row_body :: "nat \<Rightarrow> nat \<Rightarrow> index_state \<Rightarrow> index_state" where
  "row_body slices stack st = for_lt 0 slices (cell_body slices stack) st"

text \<open>The vertex loops (lines 38 to 62) and the index loops (lines 69 to 84).\<close>

definition vertex_loops :: "jsnum \<Rightarrow> nat \<Rightarrow> nat \<Rightarrow> vertex_state \<Rightarrow> vertex_state" where
  "vertex_loops radius stacks slices st = for_le 0 stacks (stack_body radius stacks slices) st"

definition index_loops :: "nat \<Rightarrow> nat \<Rightarrow> index_state \<Rightarrow> index_state" where
  "index_loops stacks slices st = for_lt 0 stacks (row_body slices) st"

text \<open>
  \<open>createSphereMesh(radius, stacks, slices)\<close>, called with all three arguments, the counts
  being non-negative integers, when its three allocations succeed. The console is
  threaded through; the result is the mesh and the console after the call. That the
  function returns is the termination of its four loops.
\<close>

definition createSphereMesh ::
  "jsnum \<Rightarrow> nat \<Rightarrow> nat \<Rightarrow> console \<Rightarrow> SphereMesh \<times> console" where
  "createSphereMesh radius stacks slices con =
     (let vertexCount = (stacks + 1) * (slices + 1);
          con' = (if vertexCount > 65535
                  then console_warn (Warn_vertexCount vertexCount) con else con);
          positions0 = new_Float32Array (vertexCount * 3);
          uvs0 = new_Float32Array (vertexCount * 2);
          vst = vertex_loops radius stacks slices
                  \<lparr>vs_positions = positions0, vs_uvs = uvs0, vs_vi = 0\<rparr>;
          indexCount = stacks * slices * 6;
          indices0 = new_Uint16Array indexCount;
          ist = index_loops stacks slices \<lparr>is_indices = indices0, is_ii = 0\<rparr>
      in (\<lparr>positions = vs_positions vst, uvs = vs_uvs vst, indices = is_indices ist,
           vertexCount = vertexCount, indexCount = indexCount\<rparr>, con'))"

text \<open>
  The same call in an engine \<open>eng\<close>, with the allocations that can fail. The function has
  no \<open>throw\<close> of its own; the three constructors (lines 34, 35 and 66) are the only calls
  in it that can throw, and what they throw leaves the function. The warning of lines
  28 to 32 is logged before the first allocation, so the console has it also when the
  call throws. The result is the error thrown or the mesh returned, and the console
  after the call.
\<close>

definition createSphereMesh_call ::
  "engine \<Rightarrow> jsnum \<Rightarrow> nat \<Rightarrow> nat \<Rightarrow> console \<Rightarrow> (js_error + SphereMesh) \<times> console" where
  "createSphereMesh_call eng radius stacks slices con =
     (let vertexCount = (stacks + 1) * (slices + 1);
          con' = (if vertexCount > 65535
                  then console_warn (Warn_vertexCount vertexCount) con else con)
      in case alloc_Float32Array eng (vertexCount * 3) of
           Inl e \<Rightarrow> (Inl e, con')
         | Inr positions0 \<Rightarrow>
            (case alloc_Float32Array eng (vertexCount * 2) of
               Inl e \<Rightarrow> (Inl e, con')
             | Inr uvs0 \<Rightarrow>
                (let vst = vertex_loops radius stacks slices
                             \<lparr>vs_positions = positions0, vs_uvs = uvs0, vs_vi = 0\<rparr>;
                     indexCount = stacks * slices * 6
                 in case alloc_Uint16Array eng indexCount of
                      Inl e \<Rightarrow> (Inl e, con')
                    | Inr indices0 \<Rightarrow>
                       (let ist = index_loops stacks slices
                                    \<lparr>is_indices = indices0, is_ii = 0\<rparr>
                        in (Inr \<lparr>positions = vs_positions vst, uvs = vs_uvs vst,
                                 indices = is_indices ist, vertexCount = vertexCount,
                                 indexCount = indexCount\<rparr>, con')))))"

subsection \<open>What the loops compute, per grid vertex and per grid cell\<close>

text \<open>
  The variables of a call after its vertex loops and after its index loops. The index
  loops do not depend on the radius.
\<close>

definition sphere_vertices :: "jsnum \<Rightarrow> nat \<Rightarrow> nat \<Rightarrow> vertex_state" where
  "sphere_vertices radius stacks slices =
     vertex_loops radius stacks slices
       \<lparr>vs_positions = new_Float32Array ((stacks + 1) * (slices + 1) * 3),
        vs_uvs = new_Float32Array ((stacks + 1) * (slices + 1) * 2), vs_vi = 0\<rparr>"

definition sphere_indices :: "nat \<Rightarrow> nat \<Rightarrow> index_state" where
  "sphere_indices stacks slices =
     index_loops stacks slices
       \<lparr>is_indices = new_Uint16Array (stacks * slices * 6), is_ii = 0\<rparr>"

subsection \<open>What the loops compute, per grid vertex and per grid cell\<close>

text \<open>
  The polar angle of row \<open>stack\<close>, the azimuth of column \<open>slice\<close>, and the position
  and the texture coordinates the vertex loops write for the grid vertex
  \<open>(stack, slice)\<close>, as the expressions of lines 39 to 58 give them.
\<close>

definition phi_at :: "nat \<Rightarrow> nat \<Rightarrow> jsnum" where
  "phi_at stacks stack = nmul (ndiv (of_count stack) (of_count stacks)) js_PI"

definition theta_at :: "nat \<Rightarrow> nat \<Rightarrow> jsnum" where
  "theta_at slices slice' = nmul (nmul (ndiv (of_count slice') (of_count slices)) (Fin 2)) js_PI"

definition vertex_x :: "jsnum \<Rightarrow> nat \<Rightarrow> nat \<Rightarrow> nat \<Rightarrow> nat \<Rightarrow> jsnum" where
  "vertex_x radius stacks slices stack slice' =
     nmul (nmul radius (nsin (phi_at stacks stack))) (ncos (theta_at slices slice'))"

definition vertex_y :: "jsnum \<Rightarrow> nat \<Rightarrow> nat \<Rightarrow> jsnum" where
  "vertex_y radius stacks stack = nmul radius (ncos (phi_at stacks stack))"

definition vertex_z :: "jsnum \<Rightarrow> nat \<Rightarrow> nat \<Rightarrow> nat \<Rightarrow> nat \<Rightarrow> jsnum" where
  "vertex_z radius stacks slices stack slice' =
     nmul (nmul radius (nsin (phi_at stacks stack))) (nsin (theta_at slices slice'))"

text \<open>
  The six corner indices of the grid cell \<open>(stack, slice)\<close>, in the order of the two
  triangles: \<open>(first, second, first + 1)\<close>, then \<open>(first + 1, second, second + 1)\<close>.
\<close>

definition cell_indices :: "nat \<Rightarrow> nat \<Rightarrow> nat \<Rightarrow> nat list" where
  "cell_indices slices stack slice' =
     (let first = stack * (slices + 1) + slice';
          second = first + (slices + 1)
      in [first, second, first + 1, first + 1, second, second + 1])"

text \<open>The six entries of an index array from offset \<open>off\<close> on, read as numbers.\<close>

definition indices_at :: "Uint16Array \<Rightarrow> nat \<Rightarrow> nat list" where
  "indices_at a off = map unat (take 6 (drop off a))"

text \<open>
  The invariant of the vertex loops when \<open>n\<close> vertices are written: the cursor is \<open>n\<close>,
  both arrays keep their lengths, and the first \<open>n\<close> vertices hold their values.
\<close>

definition vertex_inv :: "jsnum \<Rightarrow> nat \<Rightarrow> nat \<Rightarrow> nat \<Rightarrow> vertex_state \<Rightarrow> bool" where
  "vertex_inv radius stacks slices n st \<longleftrightarrow>
     vs_vi st = n \<and>
     length (vs_positions st) = (stacks + 1) * (slices + 1) * 3 \<and>
     length (vs_uvs st) = (stacks + 1) * (slices + 1) * 2 \<and>
     (\<forall>v<n.
        vs_positions st ! (v * 3) =
          vertex_x radius stacks slices (v div (slices + 1)) (v mod (slices + 1)) \<and>
        vs_positions st ! (v * 3 + 1) = vertex_y radius stacks (v div (slices + 1)) \<and>
        vs_positions st ! (v * 3 + 2) =
          vertex_z radius stacks slices (v div (slices + 1)) (v mod (slices + 1)) \<and>
        vs_uvs st ! (v * 2) = ndiv (of_count (v mod (slices + 1))) (of_count slices) \<and>
        vs_uvs st ! (v * 2 + 1) = ndiv (of_count (v div (slices + 1))) (of_count stacks))"

text \<open>
  The invariant of the index loops when \<open>n\<close> entries are written: entry \<open>k\<close> belongs to
  cell number \<open>k div 6\<close>, that is, to the cell \<open>(k div 6 div slices, k div 6 mod slices)\<close>.
\<close>

definition index_inv :: "nat \<Rightarrow> nat \<Rightarrow> nat \<Rightarrow> index_state \<Rightarrow> bool" where
  "index_inv stacks slices n st \<longleftrightarrow>
     is_ii st = n \<and>
     length (is_indices st) = stacks * slices * 6 \<and>
     (\<forall>k<n. is_indices st ! k =
        of_nat (cell_indices slices (k div 6 div slices) (k div 6 mod slices) ! (k mod 6)))"

text \<open>
  The construction rules in closed form: every array entry as a function of its own
  index, with no loop, no cursor and no reference to the warning threshold. Entry \<open>k\<close>
  of \<open>positions\<close> is coordinate \<open>k mod 3\<close> of vertex \<open>k div 3\<close>, entry \<open>k\<close> of \<open>uvs\<close> is
  coordinate \<open>k mod 2\<close> of vertex \<open>k div 2\<close>, entry \<open>k\<close> of \<open>indices\<close> is corner \<open>k mod 6\<close>
  of cell \<open>k div 6\<close>, kept in 16 bits.
\<close>

definition rule_position :: "jsnum \<Rightarrow> nat \<Rightarrow> nat \<Rightarrow> nat \<Rightarrow> jsnum" where
  "rule_position radius stacks slices k =
     (let v = k div 3; stack = v div (slices + 1); slice' = v mod (slices + 1)
      in if k mod 3 = 0 then vertex_x radius stacks slices stack slice'
         else if k mod 3 = 1 then vertex_y radius stacks stack
         else vertex_z radius stacks slices stack slice')"

definition rule_uv :: "nat \<Rightarrow> nat \<Rightarrow> nat \<Rightarrow> jsnum" where
  "rule_uv stacks slices k =
     (let v = k div 2; stack = v div (slices + 1); slice' = v mod (slices + 1)
      in if k mod 2 = 0 then ndiv (of_count slice') (of_count slices)
         else ndiv (of_count stack) (of_count stacks))"

definition rule_index :: "nat \<Rightarrow> nat \<Rightarrow> 16 word" where
  "rule_index slices k =
     of_nat (cell_indices slices (k div 6 div slices) (k div 6 mod slices) ! (k mod 6))"

definition rule_mesh :: "jsnum \<Rightarrow> nat \<Rightarrow> nat \<Rightarrow> SphereMesh" where
  "rule_mesh radius stacks slices =
     \<lparr>positions = map (rule_position radius stacks slices) [0..<(stacks + 1) * (slices + 1) * 3],
      uvs = map (rule_uv stacks slices) [0..<(stacks + 1) * (slices + 1) * 2],
      indices = map (rule_index slices) [0..<stacks * slices * 6],
      vertexCount = (stacks + 1) * (slices + 1),
      indexCount = stacks * slices * 6\<rparr>"

text \<open>
  The Euclidean norm of a position, computed with the arithmetic of the model;
  \<open>Math.sqrt\<close> of a negative number or of \<open>NaN\<close> is \<open>NaN\<close>.
\<close>

fun nsqrt :: "jsnum \<Rightarrow> jsnum" where
  "nsqrt (Fin x) = (if x < 0 then NaN else Fin (sqrt x))"
| "nsqrt PInf = PInf"
| "nsqrt NInf = NaN"
| "nsqrt NaN = NaN"

definition euclidean_norm :: "jsnum \<Rightarrow> jsnum \<Rightarrow> jsnum \<Rightarrow> jsnum" where
  "euclidean_norm x y z = nsqrt (nadd (nadd (nmul x x) (nmul y y)) (nmul z z))"

text \<open>The norm of vertex number \<open>v\<close> of a position array.\<close>

definition vertex_norm :: "Float32Array \<Rightarrow> nat \<Rightarrow> jsnum" where
  "vertex_norm a v =
     euclidean_norm (f32_get a (v * 3)) (f32_get a (v * 3 + 1)) (f32_get a (v * 3 + 2))"

text \<open>The position of vertex number \<open>v\<close> of a position array.\<close>

definition vertex_position :: "Float32Array \<Rightarrow> nat \<Rightarrow> jsnum \<times> jsnum \<times> jsnum" where
  "vertex_position a v = (f32_get a (v * 3), f32_get a (v * 3 + 1), f32_get a (v * 3 + 2))"

section \<open>The matrix utilities (\<^verbatim>\<open>src/core/math/mat4.ts\<close>)\<close>

text \<open>
  A \<open>Mat4\<close> is a \<open>Float32Array\<close>, by convention of 16 entries in column-major order.
  Every function below allocates its result; no function writes to an argument.
\<close>

type_synonym Mat4 = Float32Array

definition identity :: Mat4 where
  "identity =
     (let m = new_Float32Array 16;
          m = f32_set m 0 (Fin 1);
          m = f32_set m 5 (Fin 1);
          m = f32_set m 10 (Fin 1);
          m = f32_set m 15 (Fin 1)
      in m)"

text \<open>The right-hand side of the assignment in \<open>multiply\<close> (lines 30 to 33).\<close>

definition multiply_entry :: "Mat4 \<Rightarrow> Mat4 \<Rightarrow> nat \<Rightarrow> nat \<Rightarrow> jsnum" where
  "multiply_entry a b col row =
     nadd (nadd (nadd (nmul (f32_get a row) (f32_get b (col * 4)))
                      (nmul (f32_get a (4 + row)) (f32_get b (col * 4 + 1))))
                (nmul (f32_get a (8 + row)) (f32_get b (col * 4 + 2))))
          (nmul (f32_get a (12 + row)) (f32_get b (col * 4 + 3)))"

text \<open>The body of the inner loop of \<open>multiply\<close> (line 29).\<close>

definition multiply_body :: "Mat4 \<Rightarrow> Mat4 \<Rightarrow> nat \<Rightarrow> nat \<Rightarrow> Mat4 \<Rightarrow> Mat4" where
  "multiply_body a b col row out = f32_set out (col * 4 + row) (multiply_entry a b col row)"

definition multiply :: "Mat4 \<Rightarrow> Mat4 \<Rightarrow> Mat4" where
  "multiply a b =
     for_lt 0 4 (\<lambda>col out. for_lt 0 4 (multiply_body a b col) out) (new_Float32Array 16)"

text \<open>\<open>translation(tx, ty, tz)\<close> and \<open>scaling(sx, sy, sz)\<close>, called with three arguments.\<close>

definition translation :: "jsnum \<Rightarrow> jsnum \<Rightarrow> jsnum \<Rightarrow> Mat4" where
  "translation tx ty tz =
     (let m = identity;
          m = f32_set m 12 tx;
          m = f32_set m 13 ty;
          m = f32_set m 14 tz
      in m)"

definition scaling :: "jsnum \<Rightarrow> jsnum \<Rightarrow> jsnum \<Rightarrow> Mat4" where
  "scaling sx sy sz =
     (let m = identity;
          m = f32_set m 0 sx;
          m = f32_set m 5 sy;
          m = f32_set m 10 sz
      in m)"

subsection \<open>The matrix product and the application to a point\<close>

text \<open>
  The entry in row \<open>row\<close> and column \<open>col\<close> of a column-major matrix (the index layout
  of the header comment of \<^verbatim>\<open>mat4.ts\<close>), the sum of a list of numbers, and the entry of
  the plain matrix product, the sum over \<open>k\<close> of \<open>a(row, k) * b(k, col)\<close>.
\<close>

definition mat_at :: "Mat4 \<Rightarrow> nat \<Rightarrow> nat \<Rightarrow> jsnum" where
  "mat_at m row col = f32_get m (col * 4 + row)"

definition nsum :: "jsnum list \<Rightarrow> jsnum" where
  "nsum xs = foldr nadd xs (Fin 0)"

definition mat_product_entry :: "Mat4 \<Rightarrow> Mat4 \<Rightarrow> nat \<Rightarrow> nat \<Rightarrow> jsnum" where
  "mat_product_entry a b row col = nsum (map (\<lambda>k. nmul (mat_at a row k) (mat_at b k col)) [0..<4])"

text \<open>
  Modelled from the spec: the application of a matrix to a homogeneous point under the
  column-vector convention \<open>v' = M v\<close>. The repository has no TypeScript function for
  it; its pages apply a matrix in the vertex shader, as \<^verbatim>\<open>u_mvp * vec4(...)\<close>.
\<close>

definition transformPoint :: "Mat4 \<Rightarrow> jsnum list \<Rightarrow> jsnum list" where
  "transformPoint m v = map (\<lambda>row. nsum (map (\<lambda>k. nmul (mat_at m row k) (f32_get v k)) [0..<4])) [0..<4]"

definition all_finite :: "jsnum list \<Rightarrow> bool" where
  "all_finite xs = list_all is_finite xs"

section \<open>Loop invariants\<close>

lemma for_lt_rule:
  assumes "P i s"
    and "\<And>j t. i \<le> j \<Longrightarrow> j < n \<Longrightarrow> P j t \<Longrightarrow> P (Suc j) (body j t)"
    and "i \<le> n"
  shows "P n (for_lt i n body s)"
  using assms
proof (induction i n body s rule: for_lt.induct)
  case (1 i n body s)
  show ?case
  proof (cases "i < n")
    case True
    have "P (Suc i) (body i s)"
      using "1.prems" True by simp
    moreover have "\<And>j t. Suc i \<le> j \<Longrightarrow> j < n \<Longrightarrow> P j t \<Longrightarrow> P (Suc j) (body j t)"
      using "1.prems"(2) by simp
    ultimately have "P n (for_lt (Suc i) n body (body i s))"
      using "1.IH" True by simp
    then show ?thesis
      using True by (simp add: for_lt.simps [of i])
  next
    case False
    then have "i = n" using "1.prems"(3) by simp
    then show ?thesis
      using "1.prems"(1) by (simp add: for_lt.simps [of n])
  qed
qed

lemma for_le_rule:
  assumes "P i s"
    and "\<And>j t. i \<le> j \<Longrightarrow> j \<le> n \<Longrightarrow> P j t \<Longrightarrow> P (Suc j) (body j t)"
    and "i \<le> Suc n"
  shows "P (Suc n) (for_le i n body s)"
  using assms
proof (induction i n body s rule: for_le.induct)
  case (1 i n body s)
  show ?case
  proof (cases "i \<le> n")
    case True
    have "P (Suc i) (body i s)"
      using "1.prems" True by simp
    moreover have "\<And>j t. Suc i \<le> j \<Longrightarrow> j \<le> n \<Longrightarrow> P j t \<Longrightarrow> P (Suc j) (body j t)"
      using "1.prems"(2) by simp
    ultimately have "P (Suc n) (for_le (Suc i) n body (body i s))"
      using "1.IH" True by simp
    then show ?thesis
      using True by (simp add: for_le.simps [of i])
  next
    case False
    then have "i = Suc n" using "1.prems"(3) by simp
    then show ?thesis
      using "1.prems"(1) by (simp add: for_le.simps [of "Suc n"])
  qed
qed

section \<open>Arithmetic of grid indices\<close>

lemma div_gen: "r < m \<Longrightarrow> (q * m + r) div m = (q::nat)"
  by simp

lemma mod_gen: "r < m \<Longrightarrow> (q * m + r) mod m = (r::nat)"
  by simp

lemma vertex_index_bound:
  assumes "stack \<le> stacks" "slice' \<le> slices"
  shows "stack * (slices + 1) + slice' < (stacks + 1) * (slices + (1::nat))"
proof -
  have "stack * (slices + 1) \<le> stacks * (slices + 1)"
    using assms(1) by (rule mult_le_mono1)
  then show ?thesis using assms(2) by simp
qed

lemma vertex_body_positions:
  assumes "vs_vi st = n" "n * 3 + 2 < length (vs_positions st)"
  shows "vs_positions (vertex_body radius stacks slices stack sinPhi cosPhi slice' st) ! k =
           (if k = n * 3 then nmul (nmul radius sinPhi) (ncos (theta_at slices slice'))
            else if k = n * 3 + 1 then nmul radius cosPhi
            else if k = n * 3 + 2 then nmul (nmul radius sinPhi) (nsin (theta_at slices slice'))
            else vs_positions st ! k)"
  using assms by (simp add: vertex_body_def Let_def f32_set_def theta_at_def nth_list_update)

lemma vertex_body_uvs:
  assumes "vs_vi st = n" "n * 2 + 1 < length (vs_uvs st)"
  shows "vs_uvs (vertex_body radius stacks slices stack sinPhi cosPhi slice' st) ! k =
           (if k = n * 2 then ndiv (of_count slice') (of_count slices)
            else if k = n * 2 + 1 then ndiv (of_count stack) (of_count stacks)
            else vs_uvs st ! k)"
  using assms by (simp add: vertex_body_def Let_def f32_set_def nth_list_update)

lemma vertex_body_frame:
  "vs_vi (vertex_body radius stacks slices stack sinPhi cosPhi slice' st) = Suc (vs_vi st)"
  "length (vs_positions (vertex_body radius stacks slices stack sinPhi cosPhi slice' st)) =
     length (vs_positions st)"
  "length (vs_uvs (vertex_body radius stacks slices stack sinPhi cosPhi slice' st)) =
     length (vs_uvs st)"
  by (simp_all add: vertex_body_def Let_def f32_set_def)

lemma vertex_body_inv:
  assumes inv: "vertex_inv radius stacks slices (stack * (slices + 1) + slice') st"
    and "stack \<le> stacks" "slice' \<le> slices"
  shows "vertex_inv radius stacks slices (Suc (stack * (slices + 1) + slice'))
           (vertex_body radius stacks slices stack (nsin (phi_at stacks stack))
              (ncos (phi_at stacks stack)) slice' st)"
proof -
  define n where "n = stack * (slices + 1) + slice'"
  let ?st' = "vertex_body radius stacks slices stack (nsin (phi_at stacks stack))
              (ncos (phi_at stacks stack)) slice' st"
  have n: "n < (stacks + 1) * (slices + 1)"
    unfolding n_def using assms(2,3) by (rule vertex_index_bound)
  have vi: "vs_vi st = n"
    and lp: "length (vs_positions st) = (stacks + 1) * (slices + 1) * 3"
    and lu: "length (vs_uvs st) = (stacks + 1) * (slices + 1) * 2"
    using inv by (simp_all add: vertex_inv_def n_def)
  have old: "\<And>v. v < n \<Longrightarrow>
        vs_positions st ! (v * 3) =
          vertex_x radius stacks slices (v div (slices + 1)) (v mod (slices + 1)) \<and>
        vs_positions st ! (v * 3 + 1) = vertex_y radius stacks (v div (slices + 1)) \<and>
        vs_positions st ! (v * 3 + 2) =
          vertex_z radius stacks slices (v div (slices + 1)) (v mod (slices + 1)) \<and>
        vs_uvs st ! (v * 2) = ndiv (of_count (v mod (slices + 1))) (of_count slices) \<and>
        vs_uvs st ! (v * 2 + 1) = ndiv (of_count (v div (slices + 1))) (of_count stacks)"
    using inv by (simp add: vertex_inv_def n_def)
  have d: "n div (slices + 1) = stack"
    unfolding n_def using assms(3) by (intro div_gen) simp
  have m: "n mod (slices + 1) = slice'"
    unfolding n_def using assms(3) by (intro mod_gen) simp
  have inp: "n * 3 + 2 < length (vs_positions st)" and inu: "n * 2 + 1 < length (vs_uvs st)"
    using n lp lu by simp_all
  note pos = vertex_body_positions [OF vi inp] and uv = vertex_body_uvs [OF vi inu]
  have new: "vs_positions ?st' ! (v * 3) =
          vertex_x radius stacks slices (v div (slices + 1)) (v mod (slices + 1)) \<and>
        vs_positions ?st' ! (v * 3 + 1) = vertex_y radius stacks (v div (slices + 1)) \<and>
        vs_positions ?st' ! (v * 3 + 2) =
          vertex_z radius stacks slices (v div (slices + 1)) (v mod (slices + 1)) \<and>
        vs_uvs ?st' ! (v * 2) = ndiv (of_count (v mod (slices + 1))) (of_count slices) \<and>
        vs_uvs ?st' ! (v * 2 + 1) = ndiv (of_count (v div (slices + 1))) (of_count stacks)"
    if "v < Suc n" for v
  proof -
    from that consider "v = n" | "v < n" by linarith
    then show ?thesis
    proof cases
      case 1
      show ?thesis
        unfolding 1 d m pos uv
        by (simp add: vertex_x_def vertex_y_def vertex_z_def)
    next
      case 2
      have "v * 3 \<noteq> n * 3" "v * 3 \<noteq> n * 3 + 1" "v * 3 \<noteq> n * 3 + 2"
        "v * 3 + 1 \<noteq> n * 3" "v * 3 + 1 \<noteq> n * 3 + 1" "v * 3 + 1 \<noteq> n * 3 + 2"
        "v * 3 + 2 \<noteq> n * 3" "v * 3 + 2 \<noteq> n * 3 + 1" "v * 3 + 2 \<noteq> n * 3 + 2"
        "v * 2 \<noteq> n * 2" "v * 2 \<noteq> n * 2 + 1" "v * 2 + 1 \<noteq> n * 2" "v * 2 + 1 \<noteq> n * 2 + 1"
        using 2 by linarith+
      then show ?thesis
        unfolding pos uv using old [OF 2] by simp
    qed
  qed
  have "vs_vi ?st' = Suc n"
    "length (vs_positions ?st') = (stacks + 1) * (slices + 1) * 3"
    "length (vs_uvs ?st') = (stacks + 1) * (slices + 1) * 2"
    by (simp_all add: vertex_body_frame vi lp lu)
  then have "vertex_inv radius stacks slices (Suc n) ?st'"
    unfolding vertex_inv_def using new by blast
  then show ?thesis by (simp only: n_def)
qed

lemma stack_body_inv:
  assumes inv: "vertex_inv radius stacks slices (stack * (slices + 1)) st"
    and "stack \<le> stacks"
  shows "vertex_inv radius stacks slices (Suc stack * (slices + 1))
           (stack_body radius stacks slices stack st)"
proof -
  let ?P = "\<lambda>k t. vertex_inv radius stacks slices (stack * (slices + 1) + k) t"
  have "?P (Suc slices) (for_le 0 slices
          (vertex_body radius stacks slices stack (nsin (phi_at stacks stack))
              (ncos (phi_at stacks stack))) st)"
  proof (rule for_le_rule [where P = ?P])
    show "?P 0 st" using inv by simp
  next
    fix j t assume "j \<le> slices" "?P j t"
    then show "?P (Suc j) (vertex_body radius stacks slices stack (nsin (phi_at stacks stack))
              (ncos (phi_at stacks stack)) j t)"
      using vertex_body_inv [OF _ assms(2), of radius slices j t] by simp
  qed simp
  moreover have "stack * (slices + 1) + Suc slices = Suc stack * (slices + 1)"
    by simp
  ultimately show ?thesis
    by (simp only: stack_body_def phi_at_def Let_def)
qed

lemma vertex_loops_inv:
  "vertex_inv radius stacks slices ((stacks + 1) * (slices + 1))
     (sphere_vertices radius stacks slices)"
proof -
  let ?P = "\<lambda>j t. vertex_inv radius stacks slices (j * (slices + 1)) t"
  let ?s0 = "\<lparr>vs_positions = new_Float32Array ((stacks + 1) * (slices + 1) * 3),
         vs_uvs = new_Float32Array ((stacks + 1) * (slices + 1) * 2), vs_vi = 0\<rparr>"
  have "?P (Suc stacks) (for_le 0 stacks (stack_body radius stacks slices) ?s0)"
  proof (rule for_le_rule [where P = ?P])
    show "?P 0 ?s0"
      by (simp add: vertex_inv_def new_Float32Array_def)
  next
    fix j t assume "j \<le> stacks" "?P j t"
    then show "?P (Suc j) (stack_body radius stacks slices j t)"
      by (rule stack_body_inv [rotated])
  qed simp
  then show ?thesis by (simp add: sphere_vertices_def vertex_loops_def)
qed

lemma cell_body_nth:
  assumes "is_ii st = n" "n + 5 < length (is_indices st)"
  shows "is_indices (cell_body slices stack slice' st) ! k =
           (if n \<le> k \<and> k < n + 6 then of_nat (cell_indices slices stack slice' ! (k - n))
            else is_indices st ! k)"
proof -
  consider "k < n" | "k = n" | "k = n + 1" | "k = n + 2" | "k = n + 3" | "k = n + 4"
    | "k = n + 5" | "n + 6 \<le> k"
    by linarith
  then show ?thesis
    using assms
    by cases (simp_all add: cell_body_def cell_indices_def Let_def u16_set_def nth_list_update)
qed

lemma cell_body_frame:
  "is_ii (cell_body slices stack slice' st) = is_ii st + 6"
  "length (is_indices (cell_body slices stack slice' st)) = length (is_indices st)"
  by (simp_all add: cell_body_def Let_def u16_set_def)

lemma cell_number_bound:
  assumes "stack < stacks" "slice' < slices"
  shows "stack * slices + slice' < stacks * (slices::nat)"
proof -
  have "Suc stack * slices \<le> stacks * slices"
    using assms(1) by (intro mult_le_mono1) simp
  then show ?thesis using assms(2) by simp
qed

lemma cell_body_inv:
  assumes inv: "index_inv stacks slices ((stack * slices + slice') * 6) st"
    and "stack < stacks" "slice' < slices"
  shows "index_inv stacks slices ((stack * slices + Suc slice') * 6)
           (cell_body slices stack slice' st)"
proof -
  define c where "c = stack * slices + slice'"
  let ?st' = "cell_body slices stack slice' st"
  have c: "c < stacks * slices"
    unfolding c_def using assms(2,3) by (rule cell_number_bound)
  have ii: "is_ii st = c * 6" and len: "length (is_indices st) = stacks * slices * 6"
    using inv by (simp_all add: index_inv_def c_def)
  have old: "\<And>k. k < c * 6 \<Longrightarrow> is_indices st ! k =
        of_nat (cell_indices slices (k div 6 div slices) (k div 6 mod slices) ! (k mod 6))"
    using inv by (simp add: index_inv_def c_def)
  have d: "c div slices = stack"
    unfolding c_def using assms(3) by (rule div_gen)
  have m: "c mod slices = slice'"
    unfolding c_def using assms(3) by (rule mod_gen)
  have inr: "c * 6 + 5 < length (is_indices st)"
    using c len by simp
  note nth = cell_body_nth [OF ii inr]
  have new: "is_indices ?st' ! k =
        of_nat (cell_indices slices (k div 6 div slices) (k div 6 mod slices) ! (k mod 6))"
    if "k < c * 6 + 6" for k
  proof (cases "k < c * 6")
    case True
    then show ?thesis unfolding nth using old by simp
  next
    case False
    then have k: "c * 6 \<le> k" "k - c * 6 < 6" using that by simp_all
    have "k = c * 6 + (k - c * 6)" using k by simp
    then have "k div 6 = c" "k mod 6 = k - c * 6"
      using k(2) by (metis div_gen, metis mod_gen)
    then show ?thesis unfolding nth using k that by (simp add: d m)
  qed
  have "is_ii ?st' = c * 6 + 6" "length (is_indices ?st') = stacks * slices * 6"
    by (simp_all add: cell_body_frame ii len)
  then have "index_inv stacks slices (c * 6 + 6) ?st'"
    unfolding index_inv_def using new by blast
  moreover have "(stack * slices + Suc slice') * 6 = c * 6 + 6"
    by (simp add: c_def)
  ultimately show ?thesis by (simp only:)
qed

lemma row_body_inv:
  assumes inv: "index_inv stacks slices (stack * slices * 6) st"
    and "stack < stacks"
  shows "index_inv stacks slices (Suc stack * slices * 6) (row_body slices stack st)"
proof -
  let ?P = "\<lambda>k t. index_inv stacks slices ((stack * slices + k) * 6) t"
  have "?P slices (for_lt 0 slices (cell_body slices stack) st)"
  proof (rule for_lt_rule [where P = ?P])
    show "?P 0 st" using inv by simp
  next
    fix j t assume "j < slices" "?P j t"
    then show "?P (Suc j) (cell_body slices stack j t)"
      using cell_body_inv [OF _ assms(2), of slices j t] by simp
  qed simp
  moreover have "(stack * slices + slices) * 6 = Suc stack * slices * 6"
    by simp
  ultimately show ?thesis
    by (simp only: row_body_def)
qed

lemma index_loops_inv:
  "index_inv stacks slices (stacks * slices * 6) (sphere_indices stacks slices)"
proof -
  let ?P = "\<lambda>j t. index_inv stacks slices (j * slices * 6) t"
  let ?s0 = "\<lparr>is_indices = new_Uint16Array (stacks * slices * 6), is_ii = 0\<rparr>"
  have "?P stacks (for_lt 0 stacks (row_body slices) ?s0)"
  proof (rule for_lt_rule [where P = ?P])
    show "?P 0 ?s0"
      by (simp add: index_inv_def new_Uint16Array_def)
  next
    fix j t assume "j < stacks" "?P j t"
    then show "?P (Suc j) (row_body slices j t)"
      by (rule row_body_inv [rotated])
  qed simp
  then show ?thesis by (simp add: sphere_indices_def index_loops_def)
qed

section \<open>The arrays after the loops\<close>

lemma mesh_fields:
  "vertexCount (fst (createSphereMesh radius stacks slices con)) = (stacks + 1) * (slices + 1)"
  "indexCount (fst (createSphereMesh radius stacks slices con)) = stacks * slices * 6"
  "positions (fst (createSphereMesh radius stacks slices con)) =
     vs_positions (sphere_vertices radius stacks slices)"
  "uvs (fst (createSphereMesh radius stacks slices con)) =
     vs_uvs (sphere_vertices radius stacks slices)"
  "indices (fst (createSphereMesh radius stacks slices con)) =
     is_indices (sphere_indices stacks slices)"
  by (simp_all add: createSphereMesh_def sphere_vertices_def sphere_indices_def Let_def)

lemma length_positions:
  "length (vs_positions (sphere_vertices radius stacks slices)) = (stacks + 1) * (slices + 1) * 3"
  using vertex_loops_inv [of radius stacks slices] by (simp add: vertex_inv_def)

lemma length_uvs:
  "length (vs_uvs (sphere_vertices radius stacks slices)) = (stacks + 1) * (slices + 1) * 2"
  using vertex_loops_inv [of radius stacks slices] by (simp add: vertex_inv_def)

lemma length_indices:
  "length (is_indices (sphere_indices stacks slices)) = stacks * slices * 6"
  using index_loops_inv [of stacks slices] by (simp add: index_inv_def)

lemma vertex_values:
  assumes "stack \<le> stacks" "slice' \<le> slices"
  defines "v \<equiv> stack * (slices + 1) + slice'"
  shows "vs_positions (sphere_vertices radius stacks slices) ! (v * 3) =
           vertex_x radius stacks slices stack slice'"
    and "vs_positions (sphere_vertices radius stacks slices) ! (v * 3 + 1) =
           vertex_y radius stacks stack"
    and "vs_positions (sphere_vertices radius stacks slices) ! (v * 3 + 2) =
           vertex_z radius stacks slices stack slice'"
    and "vs_uvs (sphere_vertices radius stacks slices) ! (v * 2) =
           ndiv (of_count slice') (of_count slices)"
    and "vs_uvs (sphere_vertices radius stacks slices) ! (v * 2 + 1) =
           ndiv (of_count stack) (of_count stacks)"
proof -
  have v: "v < (stacks + 1) * (slices + 1)"
    unfolding v_def using assms(1,2) by (rule vertex_index_bound)
  have d: "v div (slices + 1) = stack"
    unfolding v_def using assms(2) by (intro div_gen) simp
  have m: "v mod (slices + 1) = slice'"
    unfolding v_def using assms(2) by (intro mod_gen) simp
  have "vs_positions (sphere_vertices radius stacks slices) ! (v * 3) =
          vertex_x radius stacks slices (v div (slices + 1)) (v mod (slices + 1)) \<and>
        vs_positions (sphere_vertices radius stacks slices) ! (v * 3 + 1) =
          vertex_y radius stacks (v div (slices + 1)) \<and>
        vs_positions (sphere_vertices radius stacks slices) ! (v * 3 + 2) =
          vertex_z radius stacks slices (v div (slices + 1)) (v mod (slices + 1)) \<and>
        vs_uvs (sphere_vertices radius stacks slices) ! (v * 2) =
          ndiv (of_count (v mod (slices + 1))) (of_count slices) \<and>
        vs_uvs (sphere_vertices radius stacks slices) ! (v * 2 + 1) =
          ndiv (of_count (v div (slices + 1))) (of_count stacks)"
    using vertex_loops_inv [of radius stacks slices] v
    unfolding vertex_inv_def by blast
  then show "vs_positions (sphere_vertices radius stacks slices) ! (v * 3) =
           vertex_x radius stacks slices stack slice'"
    and "vs_positions (sphere_vertices radius stacks slices) ! (v * 3 + 1) =
           vertex_y radius stacks stack"
    and "vs_positions (sphere_vertices radius stacks slices) ! (v * 3 + 2) =
           vertex_z radius stacks slices stack slice'"
    and "vs_uvs (sphere_vertices radius stacks slices) ! (v * 2) =
           ndiv (of_count slice') (of_count slices)"
    and "vs_uvs (sphere_vertices radius stacks slices) ! (v * 2 + 1) =
           ndiv (of_count stack) (of_count stacks)"
    unfolding d m by simp_all
qed

lemma index_values:
  assumes "k < stacks * slices * 6"
  shows "is_indices (sphere_indices stacks slices) ! k = rule_index slices k"
  using index_loops_inv [of stacks slices] assms
  by (simp add: index_inv_def rule_index_def)

lemma cell_of_entry:
  assumes "k < stacks * slices * (6::nat)"
  shows "k div 6 div slices < stacks" and "k div 6 mod slices < slices" and "k mod 6 < 6"
proof -
  have c: "k div 6 < stacks * slices"
    using assms by (simp add: less_mult_imp_div_less)
  then have "0 < slices" by (cases slices) simp_all
  then show "k div 6 mod slices < slices" by simp
  show "k div 6 div slices < stacks"
    using c by (simp add: less_mult_imp_div_less)
  show "k mod 6 < 6" by simp
qed

lemma cell_indices_bound:
  assumes "stack < stacks" "slice' < slices" "j < 6"
  shows "cell_indices slices stack slice' ! j < (stacks + 1) * (slices + 1)"
proof -
  have "Suc stack * (slices + 1) \<le> stacks * (slices + 1)"
    using assms(1) by (intro mult_le_mono1) simp
  then have top: "stack * (slices + 1) + slice' + (slices + 1) + 1 < (stacks + 1) * (slices + 1)"
    using assms(2) by simp
  from assms(3) consider "j = 0" | "j = 1" | "j = 2" | "j = 3" | "j = 4" | "j = 5"
    by linarith
  then show ?thesis
    using top by cases (simp_all add: cell_indices_def Let_def)
qed

lemma index_entry_bound:
  assumes "x \<in> set (is_indices (sphere_indices stacks slices))"
  shows "unat x < (stacks + 1) * (slices + 1)"
proof -
  from assms obtain k where k: "k < stacks * slices * 6"
    and x: "x = is_indices (sphere_indices stacks slices) ! k"
    by (auto simp: in_set_conv_nth length_indices)
  let ?v = "cell_indices slices (k div 6 div slices) (k div 6 mod slices) ! (k mod 6)"
  have "x = of_nat ?v"
    using x index_values [OF k] by (simp add: rule_index_def)
  then have "unat x = ?v mod 2 ^ 16"
    by (simp add: unat_of_nat)
  also have "\<dots> \<le> ?v" by simp
  also have "?v < (stacks + 1) * (slices + 1)"
    using cell_of_entry [OF k] by (rule cell_indices_bound)
  finally show ?thesis .
qed

section \<open>The shape of the mesh\<close>

text \<open>
  Claim C1. For \<open>stacks \<ge> 1\<close>, \<open>slices \<ge> 1\<close> and every radius, the mesh returned by
  \<open>createSphereMesh\<close> has \<open>vertexCount = (stacks + 1) * (slices + 1)\<close>, \<open>positions\<close> of
  length \<open>3 * vertexCount\<close>, \<open>uvs\<close> of length \<open>2 * vertexCount\<close>, \<open>indices\<close> of length
  \<open>indexCount = stacks * slices * 6\<close>, and every entry of \<open>indices\<close>, read as an
  unsigned number, is below \<open>vertexCount\<close>. The bound on the entries holds for the values
  as stored in 16 bits: a stored value is at most the corner index it comes from, and
  every corner index is below \<open>vertexCount\<close>.
\<close>

theorem createSphereMesh_shape:
  assumes "1 \<le> stacks" and "1 \<le> slices"
  shows "vertexCount (fst (createSphereMesh radius stacks slices con)) = (stacks + 1) * (slices + 1)
    \<and> length (positions (fst (createSphereMesh radius stacks slices con))) =
        3 * vertexCount (fst (createSphereMesh radius stacks slices con))
    \<and> length (uvs (fst (createSphereMesh radius stacks slices con))) =
        2 * vertexCount (fst (createSphereMesh radius stacks slices con))
    \<and> length (indices (fst (createSphereMesh radius stacks slices con))) =
        indexCount (fst (createSphereMesh radius stacks slices con))
    \<and> indexCount (fst (createSphereMesh radius stacks slices con)) = stacks * slices * 6
    \<and> (\<forall>x \<in> set (indices (fst (createSphereMesh radius stacks slices con))).
          unat x < vertexCount (fst (createSphereMesh radius stacks slices con)))"
  unfolding mesh_fields length_positions length_uvs length_indices
  using index_entry_bound [of _ stacks slices] by (intro conjI ballI) simp_all

text \<open>The instance \<open>createSphereMesh(1, 2, 4)\<close>: 15 vertices and 48 indices.\<close>

theorem createSphereMesh_shape_example:
  "(1::nat) \<le> 2 \<and> (1::nat) \<le> 4
    \<and> vertexCount (fst (createSphereMesh (Fin 1) 2 4 [])) = 15
    \<and> length (positions (fst (createSphereMesh (Fin 1) 2 4 []))) = 45
    \<and> length (uvs (fst (createSphereMesh (Fin 1) 2 4 []))) = 30
    \<and> length (indices (fst (createSphereMesh (Fin 1) 2 4 []))) = 48
    \<and> indexCount (fst (createSphereMesh (Fin 1) 2 4 [])) = 48
    \<and> indices (fst (createSphereMesh (Fin 1) 2 4 [])) ! 47
         \<in> set (indices (fst (createSphereMesh (Fin 1) 2 4 [])))
    \<and> unat (indices (fst (createSphereMesh (Fin 1) 2 4 [])) ! 47) < 15"
proof -
  have h: "(1::nat) \<le> 2" "(1::nat) \<le> 4" by simp_all
  note t = createSphereMesh_shape [OF h, of "Fin 1" "[]"]
  have "indices (fst (createSphereMesh (Fin 1) 2 4 [])) ! 47
         \<in> set (indices (fst (createSphereMesh (Fin 1) 2 4 [])))"
    using t by (intro nth_mem) simp
  moreover from this have "unat (indices (fst (createSphereMesh (Fin 1) 2 4 [])) ! 47) < 15"
    using t by auto
  ultimately show ?thesis using t by simp
qed

section \<open>The triangulation\<close>

lemma length_cell_indices: "length (cell_indices slices stack slice') = 6"
  by (simp add: cell_indices_def Let_def)

lemma indices_at_cell:
  assumes "stack < stacks" "slice' < slices"
  shows "indices_at (is_indices (sphere_indices stacks slices)) (6 * (stack * slices + slice')) =
           map (\<lambda>v. v mod 65536) (cell_indices slices stack slice')"
proof (rule nth_equalityI)
  define c where "c = stack * slices + slice'"
  let ?a = "is_indices (sphere_indices stacks slices)"
  have c: "c < stacks * slices"
    unfolding c_def using assms by (rule cell_number_bound)
  then have off: "6 * c + 6 \<le> length ?a"
    by (simp add: length_indices)
  have d: "c div slices = stack"
    unfolding c_def using assms(2) by (rule div_gen)
  have m: "c mod slices = slice'"
    unfolding c_def using assms(2) by (rule mod_gen)
  show "length (indices_at ?a (6 * (stack * slices + slice'))) =
          length (map (\<lambda>v. v mod 65536) (cell_indices slices stack slice'))"
    using off by (simp add: indices_at_def length_cell_indices c_def)
  fix j assume "j < length (indices_at ?a (6 * (stack * slices + slice')))"
  then have j: "j < 6"
    by (simp add: indices_at_def)
  have k: "6 * c + j < stacks * slices * 6"
    using off j by (simp add: length_indices)
  have "(c * 6 + j) div 6 = c" "(c * 6 + j) mod 6 = j"
    using j by (simp_all only: div_gen mod_gen)
  then have dm: "(6 * c + j) div 6 = c" "(6 * c + j) mod 6 = j"
    by (simp_all add: mult.commute)
  have "indices_at ?a (6 * c) ! j = unat (?a ! (6 * c + j))"
    using off j by (simp add: indices_at_def)
  also have "\<dots> = unat (of_nat (cell_indices slices stack slice' ! j) :: 16 word)"
    using index_values [OF k] j by (simp add: rule_index_def dm d m)
  also have "\<dots> = cell_indices slices stack slice' ! j mod 65536"
    by (simp add: unat_of_nat)
  finally show "indices_at ?a (6 * (stack * slices + slice')) ! j =
      map (\<lambda>v. v mod 65536) (cell_indices slices stack slice') ! j"
    using j by (simp add: c_def length_cell_indices)
qed

lemma cell_indices_small:
  assumes "stack < stacks" "slice' < slices" "(stacks + 1) * (slices + 1) \<le> 65536"
  shows "map (\<lambda>v. v mod 65536) (cell_indices slices stack slice') = cell_indices slices stack slice'"
proof (rule nth_equalityI)
  show "length (map (\<lambda>v. v mod 65536) (cell_indices slices stack slice')) =
          length (cell_indices slices stack slice')"
    by simp
  fix j assume "j < length (map (\<lambda>v. v mod 65536) (cell_indices slices stack slice'))"
  then have j: "j < 6" by (simp add: length_cell_indices)
  have "cell_indices slices stack slice' ! j < (stacks + 1) * (slices + 1)"
    using assms(1,2) j by (rule cell_indices_bound)
  then have "cell_indices slices stack slice' ! j < 65536"
    using assms(3) by linarith
  then show "map (\<lambda>v. v mod 65536) (cell_indices slices stack slice') ! j =
      cell_indices slices stack slice' ! j"
    using j by (simp add: length_cell_indices)
qed

text \<open>
  Claim C4, as amended. For \<open>stacks \<ge> 1\<close>, \<open>slices \<ge> 1\<close> and every grid cell
  \<open>(stack, slice)\<close> with \<open>stack < stacks\<close> and \<open>slice < slices\<close>, the six entries of
  \<open>indices\<close> from offset \<open>6 * (stack * slices + slice)\<close> on are the six corner indices
  \<open>(first, second, first + 1, first + 1, second, second + 1)\<close> reduced modulo \<open>65536\<close>,
  where \<open>first = stack * (slices + 1) + slice\<close> and \<open>second = first + (slices + 1)\<close>; they
  are the corner indices themselves whenever \<open>(stacks + 1) * (slices + 1) \<le> 65536\<close>.
\<close>

theorem createSphereMesh_cell_indices:
  assumes "1 \<le> stacks" and "1 \<le> slices" and "stack < stacks" and "slice' < slices"
  shows "indices_at (indices (fst (createSphereMesh radius stacks slices con)))
           (6 * (stack * slices + slice')) =
         map (\<lambda>v. v mod 65536) (cell_indices slices stack slice')
    \<and> ((stacks + 1) * (slices + 1) \<le> 65536 \<longrightarrow>
         indices_at (indices (fst (createSphereMesh radius stacks slices con)))
           (6 * (stack * slices + slice')) =
         cell_indices slices stack slice')"
  using indices_at_cell [OF assms(3,4)] cell_indices_small [OF assms(3,4)]
  by (simp add: mesh_fields)

text \<open>The cell \<open>(1, 3)\<close> of \<open>createSphereMesh(1, 2, 4)\<close>.\<close>

theorem createSphereMesh_cell_indices_example:
  "(1::nat) \<le> 2 \<and> (1::nat) \<le> 4 \<and> (1::nat) < 2 \<and> (3::nat) < 4
    \<and> ((2::nat) + 1) * (4 + 1) \<le> 65536
    \<and> indices_at (indices (fst (createSphereMesh (Fin 1) 2 4 []))) (6 * (1 * 4 + 3)) =
        [8, 13, 9, 9, 13, 14]"
proof -
  have h: "(1::nat) \<le> 2" "(1::nat) \<le> 4" "(1::nat) < 2" "(3::nat) < 4" by simp_all
  show ?thesis
    using createSphereMesh_cell_indices [OF h, of "Fin 1" "[]"]
    by (simp add: cell_indices_def Let_def)
qed

text \<open>
  The claim without the reduction fails on a mesh of more than \<open>65536\<close> vertices:
  \<open>createSphereMesh(1, 1, 32768)\<close> has \<open>65538\<close> vertices, and in its last cell
  \<open>(0, 32767)\<close> the corner indices \<open>65536\<close> and \<open>65537\<close> are stored as \<open>0\<close> and \<open>1\<close>.
\<close>

theorem createSphereMesh_cell_indices_wrap:
  "(1::nat) \<le> 1 \<and> (1::nat) \<le> 32768 \<and> (0::nat) < 1 \<and> (32767::nat) < 32768
    \<and> cell_indices 32768 0 32767 = [32767, 65536, 32768, 32768, 65536, 65537]
    \<and> indices_at (indices (fst (createSphereMesh (Fin 1) 1 32768 [])))
         (6 * (0 * 32768 + 32767)) = [32767, 0, 32768, 32768, 0, 1]
    \<and> indices_at (indices (fst (createSphereMesh (Fin 1) 1 32768 [])))
         (6 * (0 * 32768 + 32767)) \<noteq> cell_indices 32768 0 32767"
proof -
  have h: "(0::nat) < 1" "(32767::nat) < 32768" by simp_all
  have c: "cell_indices 32768 0 32767 = [32767, 65536, 32768, 32768, 65536, 65537]"
    by (simp add: cell_indices_def Let_def)
  have "indices_at (indices (fst (createSphereMesh (Fin 1) 1 32768 [])))
         (6 * (0 * 32768 + 32767)) = [32767, 0, 32768, 32768, 0, 1]"
    unfolding mesh_fields indices_at_cell [OF h] c by simp
  then show ?thesis using c by simp
qed

section \<open>The texture coordinates\<close>

lemma nth_map_upt0: "k < n \<Longrightarrow> map f [0..<n] ! k = f k"
  by simp

lemma double_bound: "(a::nat) < b \<Longrightarrow> 2 * a + 1 < b * 2"
  by linarith

lemma ndiv_counts: "1 \<le> n \<Longrightarrow> ndiv (of_count k) (of_count n) = Fin (real k / real n)"
  by (simp add: of_count_def)

text \<open>
  Claim C5. For \<open>stacks \<ge> 1\<close> and \<open>slices \<ge> 1\<close>, the texture coordinates of the grid
  vertex \<open>(stack, slice)\<close>, with \<open>stack \<le> stacks\<close> and \<open>slice \<le> slices\<close>, are
  \<open>u = slice / slices\<close> and \<open>v = stack / stacks\<close>, at the indices
  \<open>2 * (stack * (slices + 1) + slice)\<close> and \<open>2 * (stack * (slices + 1) + slice) + 1\<close> of
  \<open>uvs\<close>, both within the array.
\<close>

theorem createSphereMesh_uvs:
  assumes "1 \<le> stacks" and "1 \<le> slices" and "stack \<le> stacks" and "slice' \<le> slices"
  shows "uvs (fst (createSphereMesh radius stacks slices con)) ! (2 * (stack * (slices + 1) + slice'))
           = Fin (real slice' / real slices)
    \<and> uvs (fst (createSphereMesh radius stacks slices con)) ! (2 * (stack * (slices + 1) + slice') + 1)
           = Fin (real stack / real stacks)
    \<and> 2 * (stack * (slices + 1) + slice') + 1
           < length (uvs (fst (createSphereMesh radius stacks slices con)))"
proof -
  have "stack * (slices + 1) + slice' < (stacks + 1) * (slices + 1)"
    using assms(3,4) by (rule vertex_index_bound)
  then have "2 * (stack * (slices + 1) + slice') + 1 < (stacks + 1) * (slices + 1) * 2"
    by (rule double_bound)
  then show ?thesis
    using vertex_values(4,5) [OF assms(3,4), of radius]
    by (simp only: mesh_fields length_uvs ndiv_counts [OF assms(1)] ndiv_counts [OF assms(2)]
        mult.commute [of 2] simp_thms)
qed

text \<open>The vertex \<open>(1, 3)\<close> of \<open>createSphereMesh(1, 2, 4)\<close>, at \<open>uvs[16]\<close> and \<open>uvs[17]\<close>.\<close>

theorem createSphereMesh_uvs_example:
  "(1::nat) \<le> 2 \<and> (1::nat) \<le> 4 \<and> (1::nat) \<le> 2 \<and> (3::nat) \<le> 4
    \<and> uvs (fst (createSphereMesh (Fin 1) 2 4 [])) ! 16 = Fin (3 / 4)
    \<and> uvs (fst (createSphereMesh (Fin 1) 2 4 [])) ! 17 = Fin (1 / 2)"
proof -
  have h: "(1::nat) \<le> 2" "(1::nat) \<le> 4" "(1::nat) \<le> 2" "(3::nat) \<le> 4" by simp_all
  show ?thesis
    using createSphereMesh_uvs [OF h, of "Fin 1" "[]"] by simp
qed

section \<open>The construction rules in closed form\<close>

lemma positions_rule:
  "vs_positions (sphere_vertices radius stacks slices) =
     map (rule_position radius stacks slices) [0..<(stacks + 1) * (slices + 1) * 3]"
proof (rule nth_equalityI)
  show "length (vs_positions (sphere_vertices radius stacks slices)) =
      length (map (rule_position radius stacks slices) [0..<(stacks + 1) * (slices + 1) * 3])"
    by (simp add: length_positions)
  fix k assume "k < length (vs_positions (sphere_vertices radius stacks slices))"
  then have k: "k < (stacks + 1) * (slices + 1) * 3"
    by (simp add: length_positions)
  define v where "v = k div 3"
  have v: "v < (stacks + 1) * (slices + 1)"
    unfolding v_def using k by (simp add: less_mult_imp_div_less)
  have kv: "k = v * 3 + k mod 3"
    unfolding v_def by simp
  have inv: "vs_positions (sphere_vertices radius stacks slices) ! (v * 3) =
          vertex_x radius stacks slices (v div (slices + 1)) (v mod (slices + 1))"
        "vs_positions (sphere_vertices radius stacks slices) ! (v * 3 + 1) =
          vertex_y radius stacks (v div (slices + 1))"
        "vs_positions (sphere_vertices radius stacks slices) ! (v * 3 + 2) =
          vertex_z radius stacks slices (v div (slices + 1)) (v mod (slices + 1))"
    using vertex_loops_inv [of radius stacks slices] v
    unfolding vertex_inv_def by blast+
  have "k mod 3 = 0 \<or> k mod 3 = 1 \<or> k mod 3 = 2" by linarith
  then have "vs_positions (sphere_vertices radius stacks slices) ! k =
      rule_position radius stacks slices k"
  proof (elim disjE)
    assume m: "k mod 3 = 0"
    then have "k = v * 3" using kv by simp
    then show ?thesis using inv(1) m by (simp add: rule_position_def Let_def v_def)
  next
    assume m: "k mod 3 = 1"
    then have "k = v * 3 + 1" using kv by simp
    then show ?thesis using inv(2) m by (simp add: rule_position_def Let_def v_def)
  next
    assume m: "k mod 3 = 2"
    then have "k = v * 3 + 2" using kv by simp
    then show ?thesis using inv(3) m by (simp add: rule_position_def Let_def v_def)
  qed
  then show "vs_positions (sphere_vertices radius stacks slices) ! k =
      map (rule_position radius stacks slices) [0..<(stacks + 1) * (slices + 1) * 3] ! k"
    by (simp only: nth_map_upt0 [OF k])
qed

lemma uvs_rule:
  "vs_uvs (sphere_vertices radius stacks slices) =
     map (rule_uv stacks slices) [0..<(stacks + 1) * (slices + 1) * 2]"
proof (rule nth_equalityI)
  show "length (vs_uvs (sphere_vertices radius stacks slices)) =
      length (map (rule_uv stacks slices) [0..<(stacks + 1) * (slices + 1) * 2])"
    by (simp add: length_uvs)
  fix k assume "k < length (vs_uvs (sphere_vertices radius stacks slices))"
  then have k: "k < (stacks + 1) * (slices + 1) * 2"
    by (simp add: length_uvs)
  define v where "v = k div 2"
  have v: "v < (stacks + 1) * (slices + 1)"
    unfolding v_def using k by (simp add: less_mult_imp_div_less)
  have kv: "k = v * 2 + k mod 2"
    unfolding v_def by simp
  have inv: "vs_uvs (sphere_vertices radius stacks slices) ! (v * 2) =
          ndiv (of_count (v mod (slices + 1))) (of_count slices)"
        "vs_uvs (sphere_vertices radius stacks slices) ! (v * 2 + 1) =
          ndiv (of_count (v div (slices + 1))) (of_count stacks)"
    using vertex_loops_inv [of radius stacks slices] v
    unfolding vertex_inv_def by blast+
  have "k mod 2 = 0 \<or> k mod 2 = 1" by linarith
  then have "vs_uvs (sphere_vertices radius stacks slices) ! k = rule_uv stacks slices k"
  proof (elim disjE)
    assume m: "k mod 2 = 0"
    then have "k = v * 2" using kv by simp
    then show ?thesis using inv(1) m by (simp add: rule_uv_def Let_def v_def)
  next
    assume m: "k mod 2 = 1"
    then have "k = v * 2 + 1" using kv by simp
    then show ?thesis using inv(2) m by (simp add: rule_uv_def Let_def v_def)
  qed
  then show "vs_uvs (sphere_vertices radius stacks slices) ! k =
      map (rule_uv stacks slices) [0..<(stacks + 1) * (slices + 1) * 2] ! k"
    by (simp only: nth_map_upt0 [OF k])
qed

lemma indices_rule:
  "is_indices (sphere_indices stacks slices) = map (rule_index slices) [0..<stacks * slices * 6]"
  by (rule nth_equalityI) (simp_all add: length_indices index_values)

lemma mesh_rule: "fst (createSphereMesh radius stacks slices con) = rule_mesh radius stacks slices"
  using positions_rule [of radius stacks slices] uvs_rule [of radius stacks slices]
    indices_rule [of stacks slices]
  by (simp add: createSphereMesh_def Let_def rule_mesh_def sphere_vertices_def sphere_indices_def)

section \<open>The warning and the allocations\<close>

text \<open>
  The call in an engine throws exactly when one of its three allocations fails, and
  otherwise returns what \<open>createSphereMesh\<close> returns; the console after the call is the
  same in both cases.
\<close>

lemma call_allocated:
  "createSphereMesh_call eng radius stacks slices con =
     (if can_allocate eng 4 ((stacks + 1) * (slices + 1) * 3)
         \<and> can_allocate eng 4 ((stacks + 1) * (slices + 1) * 2)
         \<and> can_allocate eng 2 (stacks * slices * 6)
      then Inr (fst (createSphereMesh radius stacks slices con)) else Inl RangeError,
      snd (createSphereMesh radius stacks slices con))"
  by (simp add: createSphereMesh_call_def createSphereMesh_def alloc_Float32Array_def
      alloc_Uint16Array_def Let_def)

lemma console_after:
  "snd (createSphereMesh radius stacks slices con) =
     (if (stacks + 1) * (slices + 1) > 65535
      then con @ [Warn_vertexCount ((stacks + 1) * (slices + 1))] else con)"
  by (simp add: createSphereMesh_def Let_def console_warn_def)

lemma rule_indices_stored:
  assumes "k < stacks * slices * 6"
  shows "unat (indices (rule_mesh radius stacks slices) ! k) =
           cell_indices slices (k div 6 div slices) (k div 6 mod slices) ! (k mod 6) mod 65536"
proof -
  have "indices (rule_mesh radius stacks slices) ! k = rule_index slices k"
    by (simp only: rule_mesh_def SphereMesh.simps nth_map_upt0 [OF assms])
  then show ?thesis
    by (simp add: rule_index_def unat_of_nat)
qed

text \<open>
  Claim C9, as amended. For \<open>stacks \<ge> 1\<close> and \<open>slices \<ge> 1\<close>, \<open>createSphereMesh\<close> throws
  nothing and returns the mesh of the construction rules whenever the engine can
  allocate its three arrays, of \<open>3 * vertexCount\<close> and \<open>2 * vertexCount\<close> Float32 entries
  and of \<open>stacks * slices * 6\<close> Uint16 entries, none of more than \<open>2^53 - 1\<close> entries;
  otherwise it throws a \<open>RangeError\<close>. The mesh returned has the same lengths and the
  same contents below and above the threshold of the warning. The console receives
  exactly one warning when \<open>(stacks + 1) * (slices + 1) > 65535\<close> and nothing otherwise,
  whether the call returns or throws. Every entry of \<open>indices\<close>, read as a number, is its
  corner index modulo \<open>65536\<close>.
\<close>

theorem createSphereMesh_call_result:
  assumes "1 \<le> stacks" and "1 \<le> slices"
  shows "createSphereMesh_call eng radius stacks slices con =
      (if can_allocate eng 4 ((stacks + 1) * (slices + 1) * 3)
          \<and> can_allocate eng 4 ((stacks + 1) * (slices + 1) * 2)
          \<and> can_allocate eng 2 (stacks * slices * 6)
       then Inr (rule_mesh radius stacks slices) else Inl RangeError,
       if (stacks + 1) * (slices + 1) > 65535
       then con @ [Warn_vertexCount ((stacks + 1) * (slices + 1))] else con)
    \<and> (\<forall>k < stacks * slices * 6.
          unat (indices (rule_mesh radius stacks slices) ! k) =
          cell_indices slices (k div 6 div slices) (k div 6 mod slices) ! (k mod 6) mod 65536)"
proof (intro conjI allI impI)
  show "createSphereMesh_call eng radius stacks slices con =
      (if can_allocate eng 4 ((stacks + 1) * (slices + 1) * 3)
          \<and> can_allocate eng 4 ((stacks + 1) * (slices + 1) * 2)
          \<and> can_allocate eng 2 (stacks * slices * 6)
       then Inr (rule_mesh radius stacks slices) else Inl RangeError,
       if (stacks + 1) * (slices + 1) > 65535
       then con @ [Warn_vertexCount ((stacks + 1) * (slices + 1))] else con)"
    by (simp only: call_allocated mesh_rule console_after)
next
  fix k assume "k < stacks * slices * 6"
  then show "unat (indices (rule_mesh radius stacks slices) ! k) =
          cell_indices slices (k div 6 div slices) (k div 6 mod slices) ! (k mod 6) mod 65536"
    by (rule rule_indices_stored)
qed

text \<open>
  In an engine that allocates up to \<open>2^32\<close> bytes: a mesh of 15 vertices, without
  warning; one of 65536 vertices, with it; and the call with a million stacks and
  slices, which logs the warning and throws. The last index of the first mesh is 14.
\<close>

theorem createSphereMesh_call_result_example:
  "(1::nat) \<le> 2 \<and> (1::nat) \<le> 4 \<and> (1::nat) \<le> 255 \<and> (1::nat) \<le> 1000000
    \<and> createSphereMesh_call (\<lambda>bytes. bytes \<le> 2 ^ 32) (Fin 1) 2 4 [] =
        (Inr (rule_mesh (Fin 1) 2 4), [])
    \<and> createSphereMesh_call (\<lambda>bytes. bytes \<le> 2 ^ 32) (Fin 1) 255 255 [] =
        (Inr (rule_mesh (Fin 1) 255 255), [Warn_vertexCount 65536])
    \<and> createSphereMesh_call (\<lambda>bytes. bytes \<le> 2 ^ 32) (Fin 1) 1000000 1000000 [] =
        (Inl RangeError, [Warn_vertexCount 1000002000001])
    \<and> (47::nat) < 2 * 4 * 6
    \<and> unat (indices (rule_mesh (Fin 1) 2 4) ! 47) = 14"
proof -
  have h: "(1::nat) \<le> 2" "(1::nat) \<le> 4" "(1::nat) \<le> 255" "(1::nat) \<le> 1000000"
    by simp_all
  note small = createSphereMesh_call_result [OF h(1,2), of "\<lambda>bytes. bytes \<le> 2 ^ 32" "Fin 1" "[]"]
  note warned = createSphereMesh_call_result [OF h(3,3), of "\<lambda>bytes. bytes \<le> 2 ^ 32" "Fin 1" "[]"]
  note big = createSphereMesh_call_result [OF h(4,4), of "\<lambda>bytes. bytes \<le> 2 ^ 32" "Fin 1" "[]"]
  have "unat (indices (rule_mesh (Fin 1) 2 4) ! 47) =
      cell_indices 4 (47 div 6 div 4) (47 div 6 mod 4) ! (47 mod 6) mod 65536"
    using small by simp
  then have "unat (indices (rule_mesh (Fin 1) 2 4) ! 47) = 14"
    by (simp add: cell_indices_def Let_def)
  then show ?thesis
    using small warned big
    by (simp add: can_allocate_def max_typed_array_length_def)
qed

text \<open>
  The call throws also in an engine that can allocate any number of bytes:
  \<open>createSphereMesh(1, 67108864, 67108864)\<close> has \<open>4503599761588225\<close> vertices, and three
  times as many entries of \<open>positions\<close> are more than \<open>2^53 - 1\<close>.
\<close>

theorem createSphereMesh_call_range_error:
  "(1::nat) \<le> 67108864
    \<and> \<not> (67108864 + 1) * (67108864 + 1) * 3 \<le> max_typed_array_length
    \<and> createSphereMesh_call (\<lambda>bytes. True) (Fin 1) 67108864 67108864 [] =
        (Inl RangeError, [Warn_vertexCount 4503599761588225])"
  by (simp add: createSphereMesh_call_def alloc_Float32Array_def can_allocate_def
      max_typed_array_length_def Let_def console_warn_def)

section \<open>Determinism\<close>

text \<open>
  Claim C10. Two calls of \<open>createSphereMesh\<close> with the same radius, stacks and slices
  return equal meshes (equal \<open>positions\<close>, \<open>uvs\<close>, \<open>indices\<close>, \<open>vertexCount\<close> and
  \<open>indexCount\<close>), whatever the console holds at either call: the mesh depends on the
  three arguments only.
\<close>

theorem createSphereMesh_deterministic:
  "fst (createSphereMesh radius stacks slices con1) = fst (createSphereMesh radius stacks slices con2)"
  by (simp add: createSphereMesh_def Let_def)

section \<open>The positions\<close>

lemma triple_bound: "(a::nat) < b \<Longrightarrow> a * 3 + 2 < b * 3"
  by linarith

lemma vertex_position_value:
  assumes "stack \<le> stacks" "slice' \<le> slices"
  shows "vertex_position (vs_positions (sphere_vertices radius stacks slices))
           (stack * (slices + 1) + slice') =
         (vertex_x radius stacks slices stack slice', vertex_y radius stacks stack,
          vertex_z radius stacks slices stack slice')"
proof -
  define v where "v = stack * (slices + 1) + slice'"
  have "v < (stacks + 1) * (slices + 1)"
    unfolding v_def using assms by (rule vertex_index_bound)
  then have "v * 3 + 2 < (stacks + 1) * (slices + 1) * 3"
    by (rule triple_bound)
  then have "v * 3 < length (vs_positions (sphere_vertices radius stacks slices))"
    "v * 3 + 1 < length (vs_positions (sphere_vertices radius stacks slices))"
    "v * 3 + 2 < length (vs_positions (sphere_vertices radius stacks slices))"
    by (simp_all only: length_positions)
  then show ?thesis
    using vertex_values(1,2,3) [OF assms, of radius]
    by (simp only: vertex_position_def f32_get_def v_def [symmetric] if_True)
qed

text \<open>
  With a finite radius and \<open>stacks, slices \<ge> 1\<close> every angle is finite, and the position
  of the grid vertex \<open>(stack, slice)\<close> is \<open>(r sin \<phi> cos \<theta>, r cos \<phi>, r sin \<phi> sin \<theta>)\<close> with
  \<open>\<phi> = stack / stacks * \<pi>\<close> and \<open>\<theta> = slice / slices * 2 * \<pi>\<close>.
\<close>

lemma phi_at_finite: "1 \<le> stacks \<Longrightarrow> phi_at stacks stack = Fin (real stack / real stacks * pi)"
  by (simp add: phi_at_def of_count_def js_PI_def)

lemma theta_at_finite:
  "1 \<le> slices \<Longrightarrow> theta_at slices slice' = Fin (real slice' / real slices * 2 * pi)"
  by (simp add: theta_at_def of_count_def js_PI_def)

lemma vertex_finite:
  assumes "1 \<le> stacks" "1 \<le> slices"
  shows "vertex_x (Fin r) stacks slices stack slice' =
           Fin (r * sin (real stack / real stacks * pi) * cos (real slice' / real slices * 2 * pi))"
    and "vertex_y (Fin r) stacks stack = Fin (r * cos (real stack / real stacks * pi))"
    and "vertex_z (Fin r) stacks slices stack slice' =
           Fin (r * sin (real stack / real stacks * pi) * sin (real slice' / real slices * 2 * pi))"
  by (simp_all add: vertex_x_def vertex_y_def vertex_z_def phi_at_finite [OF assms(1)]
      theta_at_finite [OF assms(2)])

lemma sphere_point_norm:
  "(r * sin p * cos t)\<^sup>2 + (r * cos p)\<^sup>2 + (r * sin p * sin t)\<^sup>2 = (r::real)\<^sup>2"
proof -
  define sp cp st ct where "sp = sin p" and "cp = cos p" and "st = sin t" and "ct = cos t"
  have one: "sp\<^sup>2 + cp\<^sup>2 = 1" "st\<^sup>2 + ct\<^sup>2 = 1"
    by (simp_all add: sp_def cp_def st_def ct_def)
  have "(r * sp * ct)\<^sup>2 + (r * cp)\<^sup>2 + (r * sp * st)\<^sup>2 =
      r\<^sup>2 * (sp\<^sup>2 * (st\<^sup>2 + ct\<^sup>2) + cp\<^sup>2)"
    by algebra
  also have "\<dots> = r\<^sup>2"
    by (simp only: one mult_1_right)
  finally show ?thesis
    by (simp only: sp_def cp_def st_def ct_def)
qed

lemma euclidean_norm_finite:
  "euclidean_norm (Fin x) (Fin y) (Fin z) = Fin (sqrt (x\<^sup>2 + y\<^sup>2 + z\<^sup>2))"
proof -
  have "\<not> x * x + y * y + z * z < 0"
    by (simp add: not_less add_nonneg_nonneg)
  then show ?thesis
    by (simp add: euclidean_norm_def power2_eq_square)
qed

lemma vertex_norm_position:
  "vertex_position a v = (x, y, z) \<Longrightarrow> vertex_norm a v = euclidean_norm x y z"
  by (simp add: vertex_position_def vertex_norm_def)

lemma grid_vertex:
  assumes "(v::nat) < (stacks + 1) * (slices + 1)"
  shows "v div (slices + 1) \<le> stacks" and "v mod (slices + 1) \<le> slices"
    and "v div (slices + 1) * (slices + 1) + v mod (slices + 1) = v"
proof -
  have "v div (slices + 1) < stacks + 1"
    using assms by (rule less_mult_imp_div_less)
  then show "v div (slices + 1) \<le> stacks" by simp
  have "v mod (slices + 1) < slices + 1" by simp
  then show "v mod (slices + 1) \<le> slices" by linarith
  show "v div (slices + 1) * (slices + 1) + v mod (slices + 1) = v"
    by (rule div_mult_mod_eq)
qed

text \<open>
  Claim C6, as amended. For every finite radius \<open>r\<close> and \<open>stacks, slices \<ge> 1\<close>, every vertex
  position (three consecutive entries of \<open>positions\<close>) has Euclidean norm \<open>\<bar>r\<bar>\<close>, the
  absolute value of the radius. The equality is exact because the arithmetic of the
  model is; the rounding of the stored values is outside the model, and so is a radius
  too large for a Float32, which the code stores as \<open>Infinity\<close>.
\<close>

theorem createSphereMesh_vertex_norm:
  assumes "1 \<le> stacks" and "1 \<le> slices" and "v < (stacks + 1) * (slices + 1)"
  shows "vertex_norm (positions (fst (createSphereMesh (Fin r) stacks slices con))) v = Fin \<bar>r\<bar>"
proof -
  define stack where "stack = v div (slices + 1)"
  define slice' where "slice' = v mod (slices + 1)"
  have g: "stack \<le> stacks" "slice' \<le> slices" "stack * (slices + 1) + slice' = v"
    unfolding stack_def slice'_def using grid_vertex [OF assms(3)] by simp_all
  have "vertex_position (vs_positions (sphere_vertices (Fin r) stacks slices)) v =
      (vertex_x (Fin r) stacks slices stack slice', vertex_y (Fin r) stacks stack,
       vertex_z (Fin r) stacks slices stack slice')"
    using vertex_position_value [OF g(1,2), of "Fin r"] by (simp only: g(3))
  then have "vertex_norm (vs_positions (sphere_vertices (Fin r) stacks slices)) v = Fin \<bar>r\<bar>"
    by (simp only: vertex_norm_position vertex_finite [OF assms(1,2)] euclidean_norm_finite
        sphere_point_norm real_sqrt_abs)
  then show ?thesis
    by (simp only: mesh_fields)
qed

text \<open>The vertex number 7 of \<open>createSphereMesh(-3, 2, 4)\<close> has norm 3.\<close>

theorem createSphereMesh_vertex_norm_example:
  "(1::nat) \<le> 2 \<and> (1::nat) \<le> 4 \<and> (7::nat) < (2 + 1) * (4 + 1)
    \<and> vertex_norm (positions (fst (createSphereMesh (Fin (- 3)) 2 4 []))) 7 = Fin 3"
proof -
  have h: "(1::nat) \<le> 2" "(1::nat) \<le> 4" "(7::nat) < (2 + 1) * (4 + 1)" by simp_all
  show ?thesis
    using createSphereMesh_vertex_norm [OF h, of "- 3" "[]"] by simp
qed

lemma first_vertex_negative:
  "vertex_position (vs_positions (sphere_vertices (Fin (- 1)) (Suc 0) (Suc 0))) 0 =
     (Fin 0, Fin (- 1), Fin 0)"
  using vertex_position_value [of 0 "Suc 0" 0 "Suc 0" "Fin (- 1)"]
  by (simp add: vertex_x_def vertex_y_def vertex_z_def phi_at_def theta_at_def
      of_count_def js_PI_def)

lemma first_vertex_infinite:
  "vertex_position (vs_positions (sphere_vertices PInf (Suc 0) (Suc 0))) 0 = (NaN, PInf, NaN)"
  using vertex_position_value [of 0 "Suc 0" 0 "Suc 0" PInf]
  by (simp add: vertex_x_def vertex_y_def vertex_z_def phi_at_def theta_at_def
      of_count_def js_PI_def)

text \<open>
  The norm is not the radius itself: the first vertex of \<open>createSphereMesh(-1, 1, 1)\<close> is
  \<open>(0, -1, 0)\<close>, of norm \<open>1\<close>. With the radius \<open>Infinity\<close> the first vertex is
  \<open>(NaN, Infinity, NaN)\<close>, since \<open>Infinity * sin 0 = NaN\<close>, and its norm is \<open>NaN\<close>.
\<close>

theorem createSphereMesh_vertex_norm_negative_radius:
  "vertex_norm (positions (fst (createSphereMesh (Fin (- 1)) 1 1 []))) 0 = Fin 1
    \<and> vertex_norm (positions (fst (createSphereMesh (Fin (- 1)) 1 1 []))) 0 \<noteq> Fin (- 1)
    \<and> vertex_norm (positions (fst (createSphereMesh PInf 1 1 []))) 0 = NaN
    \<and> vertex_norm (positions (fst (createSphereMesh PInf 1 1 []))) 0 \<noteq> PInf"
  by (simp add: mesh_fields vertex_norm_position [OF first_vertex_negative]
      vertex_norm_position [OF first_vertex_infinite] euclidean_norm_def)

text \<open>
  Claim C7, as amended. For every finite radius \<open>r\<close>, \<open>stacks, slices \<ge> 1\<close> and every
  \<open>slice \<le> slices\<close>, the vertex \<open>(0, slice)\<close>, of index \<open>slice\<close>, is at \<open>(0, r, 0)\<close> and the
  vertex \<open>(stacks, slice)\<close>, of index \<open>stacks * (slices + 1) + slice\<close>, is at \<open>(0, -r, 0)\<close>,
  whatever the slice. The equalities are exact because \<open>sin 0 = sin \<pi> = 0\<close> in the model;
  the rounding of \<open>Math.PI\<close>, \<open>Math.sin\<close> and of the stored values is outside the model,
  and so is a radius too large for a Float32, which the code stores as \<open>Infinity\<close>.
\<close>

theorem createSphereMesh_poles:
  assumes "1 \<le> stacks" and "1 \<le> slices" and "slice' \<le> slices"
  shows "vertex_position (positions (fst (createSphereMesh (Fin r) stacks slices con))) slice' =
           (Fin 0, Fin r, Fin 0)
    \<and> vertex_position (positions (fst (createSphereMesh (Fin r) stacks slices con)))
           (stacks * (slices + 1) + slice') = (Fin 0, Fin (- r), Fin 0)"
proof -
  let ?P = "vs_positions (sphere_vertices (Fin r) stacks slices)"
  have "real stacks / real stacks = 1" using assms(1) by simp
  then have bottom: "real stacks / real stacks * pi = pi" by simp
  have north: "vertex_position ?P slice' = (Fin 0, Fin r, Fin 0)"
    using vertex_position_value [of 0 stacks slice' slices "Fin r"] assms(3)
    by (simp add: vertex_finite [OF assms(1,2)])
  have south: "vertex_position ?P (stacks * (slices + 1) + slice') = (Fin 0, Fin (- r), Fin 0)"
    using vertex_position_value [of stacks stacks slice' slices "Fin r"] assms(3)
    by (simp only: vertex_finite [OF assms(1,2)] bottom sin_pi cos_pi
        mult_zero_right mult_zero_left mult_minus1_right order_refl simp_thms)
  from north south show ?thesis
    by (simp only: mesh_fields simp_thms)
qed

text \<open>The poles of column 3 of \<open>createSphereMesh(5, 2, 4)\<close>, at the vertices 3 and 13.\<close>

theorem createSphereMesh_poles_example:
  "(1::nat) \<le> 2 \<and> (1::nat) \<le> 4 \<and> (3::nat) \<le> 4
    \<and> vertex_position (positions (fst (createSphereMesh (Fin 5) 2 4 []))) 3 =
        (Fin 0, Fin 5, Fin 0)
    \<and> vertex_position (positions (fst (createSphereMesh (Fin 5) 2 4 []))) 13 =
        (Fin 0, Fin (- 5), Fin 0)"
proof -
  have h: "(1::nat) \<le> 2" "(1::nat) \<le> 4" "(3::nat) \<le> 4" by simp_all
  show ?thesis
    using createSphereMesh_poles [OF h, of 5 "[]"] by simp
qed

text \<open>
  With the radius \<open>Infinity\<close> the north pole vertex of \<open>createSphereMesh(Infinity, 1, 1)\<close> is
  \<open>(NaN, Infinity, NaN)\<close>, not \<open>(0, Infinity, 0)\<close>.
\<close>

theorem createSphereMesh_poles_infinite_radius:
  "vertex_position (positions (fst (createSphereMesh PInf 1 1 []))) 0 = (NaN, PInf, NaN)
    \<and> vertex_position (positions (fst (createSphereMesh PInf 1 1 []))) 0 \<noteq> (Fin 0, PInf, Fin 0)"
  by (simp add: mesh_fields first_vertex_infinite)

section \<open>The matrix product\<close>

lemma for_lt_0_4: "for_lt 0 4 body s = body 3 (body 2 (body 1 (body 0 s)))"
  by (simp add: for_lt.simps numeral_eq_Suc)

lemma upt_16: "[0..<16] = [0, 1, 2, 3, 4, 5, 6, 7, 8, 9, 10, 11, 12, 13, 14, 15]"
  by (simp add: upt_rec)

lemma upt_4: "[0..<4] = [0, 1, 2, 3]"
  by (simp add: upt_rec)

lemma replicate_16: "replicate 16 x = [x, x, x, x, x, x, x, x, x, x, x, x, x, x, x, x]"
  by (simp add: numeral_eq_Suc)

lemma multiply_entries:
  "multiply a b = map (\<lambda>i. multiply_entry a b (i div 4) (i mod 4)) [0..<16]"
  unfolding multiply_def for_lt_0_4 multiply_body_def new_Float32Array_def replicate_16 upt_16
  by (simp add: f32_set_def)

lemma length_multiply: "length (multiply a b) = 16"
  by (simp add: multiply_entries)

lemma multiply_at:
  assumes "row < 4" "col < 4"
  shows "mat_at (multiply a b) row col = multiply_entry a b col row"
proof -
  have i: "col * 4 + row < 16" using assms by linarith
  have "(col * 4 + row) div 4 = col" "(col * 4 + row) mod 4 = row"
    using assms(1) by (simp_all only: div_gen mod_gen)
  then show ?thesis
    unfolding mat_at_def f32_get_def multiply_entries using i
    by (simp only: length_map length_upt nth_map_upt0 minus_nat.diff_0 if_True)
qed

lemma nadd_assoc: "nadd (nadd x y) z = nadd x (nadd y z)"
  by (cases x; cases y; cases z) simp_all

lemma nadd_zero_right: "nadd x (Fin 0) = x"
  by (cases x) simp_all

lemma multiply_entry_product: "multiply_entry a b col row = mat_product_entry a b row col"
  by (simp add: multiply_entry_def mat_product_entry_def nsum_def mat_at_def upt_4
      nadd_assoc nadd_zero_right add.commute)

lemma identity_list:
  "identity = [Fin 1, Fin 0, Fin 0, Fin 0, Fin 0, Fin 1, Fin 0, Fin 0,
               Fin 0, Fin 0, Fin 1, Fin 0, Fin 0, Fin 0, Fin 0, Fin 1]"
  by (simp add: identity_def new_Float32Array_def replicate_16 f32_set_def)

lemma translation_list:
  "translation tx ty tz = [Fin 1, Fin 0, Fin 0, Fin 0, Fin 0, Fin 1, Fin 0, Fin 0,
               Fin 0, Fin 0, Fin 1, Fin 0, tx, ty, tz, Fin 1]"
  by (simp add: translation_def identity_list f32_set_def)

lemma scaling_list:
  "scaling sx sy sz = [sx, Fin 0, Fin 0, Fin 0, Fin 0, sy, Fin 0, Fin 0,
               Fin 0, Fin 0, sz, Fin 0, Fin 0, Fin 0, Fin 0, Fin 1]"
  by (simp add: scaling_def identity_list f32_set_def)

lemma scale_translate_point:
  "transformPoint (multiply (scaling (Fin 2) (Fin 2) (Fin 2)) (translation (Fin 1) (Fin 0) (Fin 0)))
     [Fin 0, Fin 0, Fin 0, Fin 1] = [Fin 2, Fin 0, Fin 0, Fin 1]"
  unfolding multiply_entries scaling_list translation_list upt_16
  by (simp add: transformPoint_def upt_4 nsum_def mat_at_def f32_get_def multiply_entry_def)

text \<open>A matrix of 16 finite entries is a list of 16 reals, entry by entry.\<close>

lemma list16:
  assumes "length xs = 16"
  shows "xs = [xs ! 0, xs ! 1, xs ! 2, xs ! 3, xs ! 4, xs ! 5, xs ! 6, xs ! 7, xs ! 8, xs ! 9, xs ! 10, xs ! 11, xs ! 12, xs ! 13, xs ! 14, xs ! 15]"
proof -
  have "map ((!) xs) [0..<16] = xs"
    using map_nth [of xs] assms by simp
  then show ?thesis
    unfolding upt_16 by simp
qed

lemma finite_list:
  assumes "all_finite xs"
  obtains m where "xs = map Fin m"
proof
  have fin: "is_finite x" if "x \<in> set xs" for x
    using assms that by (simp add: all_finite_def list_all_iff)
  have "Fin (case x of Fin r \<Rightarrow> r | _ \<Rightarrow> 0) = x" if "x \<in> set xs" for x
    using fin [OF that] by (cases x) simp_all
  then have "map (\<lambda>x. Fin (case x of Fin r \<Rightarrow> r | _ \<Rightarrow> 0)) xs = xs"
    by (rule map_idI)
  then show "xs = map Fin (map (\<lambda>x. case x of Fin r \<Rightarrow> r | _ \<Rightarrow> 0) xs)"
    by (simp add: comp_def)
qed

lemma finite_matrix:
  assumes "length M = 16" "all_finite M"
  obtains m :: "real list" where "length m = 16"
    "M = map Fin [m ! 0, m ! 1, m ! 2, m ! 3, m ! 4, m ! 5, m ! 6, m ! 7, m ! 8, m ! 9, m ! 10, m ! 11, m ! 12, m ! 13, m ! 14, m ! 15]"
proof -
  from assms(2) obtain m where m: "M = map Fin m" by (rule finite_list)
  then have l: "length m = 16" using assms(1) by simp
  have "M = map Fin [m ! 0, m ! 1, m ! 2, m ! 3, m ! 4, m ! 5, m ! 6, m ! 7, m ! 8, m ! 9, m ! 10, m ! 11, m ! 12, m ! 13, m ! 14, m ! 15]"
    using arg_cong [OF list16 [OF l], of "map Fin"] by (simp only: m)
  with l show ?thesis by (rule that)
qed

text \<open>
  For matrices and points of finite entries the product applies its right factor first:
  \<open>(a b) v = a (b v)\<close>.
\<close>

lemma list4:
  assumes "length xs = 4"
  shows "xs = [xs ! 0, xs ! 1, xs ! 2, xs ! 3]"
proof -
  have "map ((!) xs) [0..<4] = xs"
    using map_nth [of xs] assms by simp
  then show ?thesis
    unfolding upt_4 by simp
qed

lemma multiply_then_apply:
  assumes "length a = 16" "all_finite a" "length b = 16" "all_finite b"
    "length v = 4" "all_finite v"
  shows "transformPoint (multiply a b) v = transformPoint a (transformPoint b v)"
proof -
  from assms(1,2) obtain a' :: "real list" where
    a: "a = map Fin [a' ! 0, a' ! 1, a' ! 2, a' ! 3, a' ! 4, a' ! 5, a' ! 6, a' ! 7, a' ! 8, a' ! 9, a' ! 10, a' ! 11, a' ! 12, a' ! 13, a' ! 14, a' ! 15]"
    by (rule finite_matrix)
  from assms(3,4) obtain b' :: "real list" where
    b: "b = map Fin [b' ! 0, b' ! 1, b' ! 2, b' ! 3, b' ! 4, b' ! 5, b' ! 6, b' ! 7, b' ! 8, b' ! 9, b' ! 10, b' ! 11, b' ! 12, b' ! 13, b' ! 14, b' ! 15]"
    by (rule finite_matrix)
  from assms(6) obtain v' where v': "v = map Fin v'" by (rule finite_list)
  then have "length v' = 4" using assms(5) by simp
  then have v: "v = map Fin [v' ! 0, v' ! 1, v' ! 2, v' ! 3]"
    using arg_cong [OF list4, of v' "map Fin"] by (simp only: v')
  show ?thesis
    unfolding a b v multiply_entries upt_16
    by (simp add: transformPoint_def upt_4 nsum_def mat_at_def multiply_entry_def f32_get_def
        algebra_simps)
qed

text \<open>
  Claim C2. For all matrices \<open>a\<close> and \<open>b\<close> of 16 entries, \<open>multiply(a, b)\<close> is a matrix of
  16 entries whose entry in row \<open>row\<close> and column \<open>col\<close> is the entry of the plain matrix
  product, the sum over \<open>k\<close> of \<open>a(row, k) * b(k, col)\<close>; and
  \<open>multiply(scaling(2, 2, 2), translation(1, 0, 0))\<close> applied to the point \<open>(0, 0, 0, 1)\<close>
  yields \<open>(2, 0, 0, 1)\<close>: the translation acts first, the scaling second. The result is a
  fresh array: \<open>multiply\<close> writes to the array it allocates and only reads \<open>a\<close> and \<open>b\<close>.
\<close>

theorem multiply_is_matrix_product:
  assumes "length a = 16" and "length b = 16"
  shows "length (multiply a b) = 16
    \<and> (\<forall>row<4. \<forall>col<4. mat_at (multiply a b) row col = mat_product_entry a b row col)
    \<and> transformPoint
         (multiply (scaling (Fin 2) (Fin 2) (Fin 2)) (translation (Fin 1) (Fin 0) (Fin 0)))
         [Fin 0, Fin 0, Fin 0, Fin 1] = [Fin 2, Fin 0, Fin 0, Fin 1]"
proof (intro conjI allI impI)
  show "length (multiply a b) = 16"
    by (rule length_multiply)
next
  fix row col :: nat assume "row < 4" "col < 4"
  then have "mat_at (multiply a b) row col = multiply_entry a b col row"
    by (rule multiply_at)
  also have "\<dots> = mat_product_entry a b row col"
    by (rule multiply_entry_product)
  finally show "mat_at (multiply a b) row col = mat_product_entry a b row col" .
next
  show "transformPoint
         (multiply (scaling (Fin 2) (Fin 2) (Fin 2)) (translation (Fin 1) (Fin 0) (Fin 0)))
         [Fin 0, Fin 0, Fin 0, Fin 1] = [Fin 2, Fin 0, Fin 0, Fin 1]"
    by (rule scale_translate_point)
qed

text \<open>The entry in row 0 and column 3 of the product of the example is 2.\<close>

theorem multiply_is_matrix_product_example:
  "length (scaling (Fin 2) (Fin 2) (Fin 2)) = 16
    \<and> length (translation (Fin 1) (Fin 0) (Fin 0)) = 16
    \<and> (0::nat) < 4 \<and> (3::nat) < 4
    \<and> mat_at (multiply (scaling (Fin 2) (Fin 2) (Fin 2)) (translation (Fin 1) (Fin 0) (Fin 0))) 0 3
        = mat_product_entry (scaling (Fin 2) (Fin 2) (Fin 2)) (translation (Fin 1) (Fin 0) (Fin 0)) 0 3
    \<and> mat_product_entry (scaling (Fin 2) (Fin 2) (Fin 2)) (translation (Fin 1) (Fin 0) (Fin 0)) 0 3
        = Fin 2"
proof -
  have h: "length (scaling (Fin 2) (Fin 2) (Fin 2)) = 16"
    "length (translation (Fin 1) (Fin 0) (Fin 0)) = 16"
    by (simp_all add: scaling_list translation_list)
  have "mat_product_entry (scaling (Fin 2) (Fin 2) (Fin 2)) (translation (Fin 1) (Fin 0) (Fin 0)) 0 3
        = Fin 2"
    by (simp add: mat_product_entry_def scaling_list translation_list upt_4 nsum_def mat_at_def
        f32_get_def)
  then show ?thesis
    using multiply_is_matrix_product [OF h] h by simp
qed


section \<open>The identity laws\<close>

text \<open>
  Claim C3, as amended. For every matrix \<open>M\<close> of 16 finite entries, \<open>multiply(identity(), M)\<close>
  and \<open>multiply(M, identity())\<close> are both equal to \<open>M\<close>, entry by entry.
\<close>

theorem multiply_identity:
  assumes "length M = 16" and "all_finite M"
  shows "multiply identity M = M \<and> multiply M identity = M"
proof -
  from assms obtain m :: "real list" where
    M: "M = map Fin [m ! 0, m ! 1, m ! 2, m ! 3, m ! 4, m ! 5, m ! 6, m ! 7, m ! 8, m ! 9, m ! 10, m ! 11, m ! 12, m ! 13, m ! 14, m ! 15]"
    by (rule finite_matrix)
  have left: "multiply identity M = M"
    unfolding M multiply_entries identity_list upt_16
    by (simp add: multiply_entry_def f32_get_def)
  have right: "multiply M identity = M"
    unfolding M multiply_entries identity_list upt_16
    by (simp add: multiply_entry_def f32_get_def)
  from left right show ?thesis ..
qed

text \<open>Both laws at \<open>translation(1, 2, 3)\<close>.\<close>

theorem multiply_identity_example:
  "length (translation (Fin 1) (Fin 2) (Fin 3)) = 16
    \<and> all_finite (translation (Fin 1) (Fin 2) (Fin 3))
    \<and> multiply identity (translation (Fin 1) (Fin 2) (Fin 3)) = translation (Fin 1) (Fin 2) (Fin 3)
    \<and> multiply (translation (Fin 1) (Fin 2) (Fin 3)) identity = translation (Fin 1) (Fin 2) (Fin 3)"
proof -
  have h: "length (translation (Fin 1) (Fin 2) (Fin 3)) = 16"
    "all_finite (translation (Fin 1) (Fin 2) (Fin 3))"
    by (simp_all add: translation_list all_finite_def)
  show ?thesis
    using multiply_identity [OF h] h by simp
qed

text \<open>
  The laws fail for a matrix with an infinite entry: in \<open>scaling(Infinity, 1, 1)\<close> the
  entries 1 and 4 are \<open>0\<close>, but the products with the identity have \<open>NaN\<close> there, from
  \<open>0 * Infinity\<close>.
\<close>

theorem multiply_identity_infinite_entry:
  "length (scaling PInf (Fin 1) (Fin 1)) = 16
    \<and> scaling PInf (Fin 1) (Fin 1) ! 1 = Fin 0
    \<and> multiply identity (scaling PInf (Fin 1) (Fin 1)) ! 1 = NaN
    \<and> scaling PInf (Fin 1) (Fin 1) ! 4 = Fin 0
    \<and> multiply (scaling PInf (Fin 1) (Fin 1)) identity ! 4 = NaN
    \<and> multiply identity (scaling PInf (Fin 1) (Fin 1)) \<noteq> scaling PInf (Fin 1) (Fin 1)
    \<and> multiply (scaling PInf (Fin 1) (Fin 1)) identity \<noteq> scaling PInf (Fin 1) (Fin 1)"
  unfolding multiply_entries scaling_list identity_list upt_16
  by (simp add: multiply_entry_def f32_get_def)

section \<open>Associativity\<close>

text \<open>
  In the model a product of matrices of finite entries has finite entries; on Float32
  values it can overflow to \<open>Infinity\<close>, which the hypotheses below then exclude from what
  the outer product receives.
\<close>

lemma all_finite_multiply:
  assumes "length A = 16" "all_finite A" "length B = 16" "all_finite B"
  shows "all_finite (multiply A B)"
proof -
  from assms(1,2) obtain a :: "real list" where
    A: "A = map Fin [a ! 0, a ! 1, a ! 2, a ! 3, a ! 4, a ! 5, a ! 6, a ! 7, a ! 8, a ! 9, a ! 10, a ! 11, a ! 12, a ! 13, a ! 14, a ! 15]"
    by (rule finite_matrix)
  from assms(3,4) obtain b :: "real list" where
    B: "B = map Fin [b ! 0, b ! 1, b ! 2, b ! 3, b ! 4, b ! 5, b ! 6, b ! 7, b ! 8, b ! 9, b ! 10, b ! 11, b ! 12, b ! 13, b ! 14, b ! 15]"
    by (rule finite_matrix)
  show ?thesis
    unfolding A B multiply_entries upt_16
    by (simp add: multiply_entry_def f32_get_def all_finite_def)
qed




end
